theory Spec2Isabelle
  imports Complex_Main "HOL-Library.Multiset" "HOL-Library.List_Lexorder" "HOL-Library.Char_ord"
begin

section \<open>JavaScript values and exceptions\<close>

text \<open>
  Values whose TypeScript type is \<^verbatim>\<open>unknown\<close>, or that come out of \<^verbatim>\<open>JSON.parse\<close>, are
  modelled dynamically. An object is the list of its own properties in insertion order.
  Numbers are only carried around by the code modelled here, never computed with.
\<close>

datatype jsval =
    JUndefined
  | JNull
  | JBool bool
  | JNum real
  | JStr string
  | JArr "jsval list"
  | JObj "(string \<times> jsval) list"

text \<open>
  What the code can throw: the \<^verbatim>\<open>ApiError\<close> class of \<^verbatim>\<open>lib/api.ts\<close> with its three
  fields (message, status, details), and the two built-in errors that the platform functions
  used below raise.
\<close>

datatype js_error =
    ApiError string int jsval
  | TypeError
  | SyntaxError

text \<open>JavaScript truthiness, as tested by \<^verbatim>\<open>if (v)\<close>, \<^verbatim>\<open>v ? a : b\<close> and \<^verbatim>\<open>v || d\<close>.\<close>

fun truthy :: "jsval \<Rightarrow> bool" where
  "truthy JUndefined = False"
| "truthy JNull = False"
| "truthy (JBool b) = b"
| "truthy (JNum x) = (x \<noteq> 0)"
| "truthy (JStr s) = (s \<noteq> [])"
| "truthy (JArr _) = True"
| "truthy (JObj _) = True"

text \<open>
  Reading a property \<^verbatim>\<open>v.k\<close>, for a name \<open>k\<close> that is not a built-in member of any
  prototype (the code below reads \<^verbatim>\<open>tokens\<close>, \<^verbatim>\<open>user\<close> and \<^verbatim>\<open>access\<close>): on
  \<^verbatim>\<open>null\<close> and \<^verbatim>\<open>undefined\<close> it throws a TypeError, on an object it gives the own
  property or \<^verbatim>\<open>undefined\<close>, on every other value \<^verbatim>\<open>undefined\<close>.
\<close>

fun get_prop :: "jsval \<Rightarrow> string \<Rightarrow> js_error + jsval" where
  "get_prop JUndefined k = Inl TypeError"
| "get_prop JNull k = Inl TypeError"
| "get_prop (JObj kvs) k = Inr (case map_of kvs k of None \<Rightarrow> JUndefined | Some v \<Rightarrow> v)"
| "get_prop v k = Inr JUndefined"

text \<open>\<^verbatim>\<open>String.prototype.startsWith\<close>.\<close>

definition startsWith :: "string \<Rightarrow> string \<Rightarrow> bool" where
  "startsWith s p = (take (length p) s = p)"

text \<open>
  Text outside ASCII is written as its UTF-8 bytes. These are the accented letters of the
  Spanish messages of the user interface.
\<close>

definition a_acute :: string where "a_acute = [CHR 0xC3, CHR 0xA1]"
definition e_acute :: string where "e_acute = [CHR 0xC3, CHR 0xA9]"
definition i_acute :: string where "i_acute = [CHR 0xC3, CHR 0xAD]"
definition o_acute :: string where "o_acute = [CHR 0xC3, CHR 0xB3]"

section \<open>The HTTP helper (\<^verbatim>\<open>lib/api.ts\<close>)\<close>

subsection \<open>The platform\<close>

text \<open>\<^verbatim>\<open>RequestInit\<close>, with the four members \<^verbatim>\<open>apiFetch\<close> sets.\<close>

record RequestInit =
  init_method :: string
  init_headers :: "string \<rightharpoonup> string"
  init_credentials :: string
  init_body :: "string option"

text \<open>
  A \<^verbatim>\<open>Response\<close> of the Fetch standard: the three members \<^verbatim>\<open>apiFetch\<close> reads, the
  body (its decoded text, \<open>None\<close> for a null body) and whether the body's stream has been
  read already.
\<close>

record Response =
  ok :: bool
  status :: int
  statusText :: string
  body_text :: "string option"
  bodyUsed :: bool

text \<open>
  The functions of the runtime that the code calls and that are not part of the repository
  are parameters: the environment variable read at build time, \<^verbatim>\<open>JSON.parse\<close>
  (\<open>None\<close> when it throws a SyntaxError), \<^verbatim>\<open>JSON.stringify\<close> and \<^verbatim>\<open>fetch\<close> (\<open>Inl\<close>
  when its promise rejects).
\<close>

record platform =
  NEXT_PUBLIC_API_BASE_URL :: "string option"
  JSON_parse :: "string \<Rightarrow> jsval option"
  JSON_stringify :: "jsval \<Rightarrow> string"
  fetch :: "string \<Rightarrow> RequestInit \<Rightarrow> js_error + Response"

text \<open>
  Reading a body, after the Fetch standard's \<^emph>\<open>consume body\<close>: a response whose body is
  not null and has been read is \<^emph>\<open>unusable\<close>, and reading it again rejects with a
  TypeError; otherwise the whole body is read, which marks a non-null body as used. A null
  body reads as the empty text.
\<close>

definition unusable :: "Response \<Rightarrow> bool" where
  "unusable r = (body_text r \<noteq> None \<and> bodyUsed r)"

definition body_string :: "Response \<Rightarrow> string" where
  "body_string r = (case body_text r of None \<Rightarrow> [] | Some t \<Rightarrow> t)"

definition read_body :: "Response \<Rightarrow> Response" where
  "read_body r = r\<lparr>bodyUsed := (body_text r \<noteq> None)\<rparr>"

definition Response_text :: "Response \<Rightarrow> (js_error + string) \<times> Response" where
  "Response_text r =
     (if unusable r then (Inl TypeError, r)
      else (Inr (body_string r), read_body r))"

definition Response_json :: "platform \<Rightarrow> Response \<Rightarrow> (js_error + jsval) \<times> Response" where
  "Response_json P r =
     (if unusable r then (Inl TypeError, r)
      else (case JSON_parse P (body_string r) of
              None \<Rightarrow> (Inl SyntaxError, read_body r)
            | Some v \<Rightarrow> (Inr v, read_body r)))"

subsection \<open>\<^verbatim>\<open>apiFetch\<close>\<close>

text \<open>
  \<^verbatim>\<open>process.env.NEXT_PUBLIC_API_BASE_URL ?? "http://localhost:8000"\<close>
\<close>

definition API_BASE_URL :: "platform \<Rightarrow> string" where
  "API_BASE_URL P =
     (case NEXT_PUBLIC_API_BASE_URL P of None \<Rightarrow> ''http://localhost:8000'' | Some v \<Rightarrow> v)"

text \<open>
  \<^verbatim>\<open>RequestOptions\<close>. An absent \<^verbatim>\<open>body\<close> is \<^verbatim>\<open>undefined\<close>; \<^verbatim>\<open>token\<close> is
  \<^verbatim>\<open>string | null | undefined\<close>, where \<open>None\<close> stands for both \<^verbatim>\<open>null\<close> and
  \<^verbatim>\<open>undefined\<close> (the code only tests its truthiness).
\<close>

record RequestOptions =
  opt_method :: "string option"
  opt_headers :: "(string \<rightharpoonup> string) option"
  opt_body :: jsval
  opt_token :: "string option"

text \<open>\<^verbatim>\<open>API_BASE_URL.replace(/\/$/, "")\<close>: one slash at the very end is removed.\<close>

definition strip_trailing_slash :: "string \<Rightarrow> string" where
  "strip_trailing_slash s = (if s \<noteq> [] \<and> last s = CHR ''/'' then butlast s else s)"

text \<open>Lines 27 to 31: the URL.\<close>

definition apiFetch_url :: "platform \<Rightarrow> string \<Rightarrow> string" where
  "apiFetch_url P path =
     (if startsWith path ''http'' then path
      else strip_trailing_slash (API_BASE_URL P)
           @ (if startsWith path ''/'' then [] else ''/'')
           @ path)"

text \<open>
  Lines 32 to 50: the headers and the \<^verbatim>\<open>RequestInit\<close>. The object spread
  \<^verbatim>\<open>{Accept: "application/json", ...options.headers}\<close> lets the caller's headers
  override; the two assignments that follow override the caller's.
\<close>

definition token_truthy :: "string option \<Rightarrow> bool" where
  "token_truthy t = (case t of None \<Rightarrow> False | Some s \<Rightarrow> s \<noteq> [])"

definition apiFetch_headers :: "RequestOptions \<Rightarrow> (string \<rightharpoonup> string)" where
  "apiFetch_headers options =
     (let headers = [''Accept'' \<mapsto> ''application/json'']
                      ++ (case opt_headers options of None \<Rightarrow> Map.empty | Some h \<Rightarrow> h);
          headers = (case opt_token options of
                       None \<Rightarrow> headers
                     | Some t \<Rightarrow>
                         if t \<noteq> [] then headers(''Authorization'' \<mapsto> ''Bearer '' @ t)
                         else headers);
          headers = (if opt_body options \<noteq> JUndefined
                     then headers(''Content-Type'' \<mapsto> ''application/json'')
                     else headers)
      in headers)"

definition apiFetch_init :: "platform \<Rightarrow> RequestOptions \<Rightarrow> RequestInit" where
  "apiFetch_init P options =
     \<lparr>init_method = (case opt_method options of None \<Rightarrow> ''GET'' | Some m \<Rightarrow> m),
      init_headers = apiFetch_headers options,
      init_credentials = ''include'',
      init_body = (if opt_body options \<noteq> JUndefined
                   then Some (JSON_stringify P (opt_body options)) else None)\<rparr>"

text \<open>
  Lines 54 to 73: what is done with the response. The result is paired with the response
  as the function leaves it, so that one can say whether the body was read.
\<close>

definition error_message :: "Response \<Rightarrow> string" where
  "error_message r = (if statusText r \<noteq> [] then statusText r else ''Solicitud fallida'')"

definition apiFetch_response :: "platform \<Rightarrow> Response \<Rightarrow> (js_error + jsval) \<times> Response" where
  "apiFetch_response P response =
     (if \<not> ok response then
        (case Response_json P response of
           (Inr details, r1) \<Rightarrow>
             (Inl (ApiError (error_message r1) (status r1) details), r1)
         | (Inl _, r1) \<Rightarrow>
             (case Response_text r1 of
                (Inr details, r2) \<Rightarrow>
                  (Inl (ApiError (error_message r2) (status r2) (JStr details)), r2)
              | (Inl e, r2) \<Rightarrow> (Inl e, r2)))
      else if status response = 204 then (Inr JUndefined, response)
      else Response_json P response)"

definition apiFetch :: "platform \<Rightarrow> string \<Rightarrow> RequestOptions \<Rightarrow> js_error + jsval" where
  "apiFetch P path options =
     (case fetch P (apiFetch_url P path) (apiFetch_init P options) of
        Inl e \<Rightarrow> Inl e
      | Inr response \<Rightarrow> fst (apiFetch_response P response))"

section \<open>The auth session (\<^verbatim>\<open>context/auth-context.tsx\<close>)\<close>

record AuthTokens =
  access :: string
  refresh :: string

record AuthUser =
  username :: string
  role :: "string option"

record LoginCredentials =
  cred_username :: string
  cred_password :: string

record RegisterPayload =
  reg_username :: string
  reg_password :: string
  reg_email :: "string option"
  reg_role :: "string option"

definition STORAGE_KEY :: string where
  "STORAGE_KEY = ''coffeefy-auth''"

text \<open>
  The typed values as JavaScript objects. An \<^verbatim>\<open>AuthUser\<close> without a role is the object
  with the single property \<^verbatim>\<open>username\<close>; the code never tells a missing \<^verbatim>\<open>role\<close> from
  one that is \<^verbatim>\<open>undefined\<close>, and \<^verbatim>\<open>JSON.stringify\<close> drops the latter.
\<close>

definition tokens_val :: "AuthTokens \<Rightarrow> jsval" where
  "tokens_val t = JObj [(''access'', JStr (access t)), (''refresh'', JStr (refresh t))]"

definition user_val :: "AuthUser \<Rightarrow> jsval" where
  "user_val u =
     JObj ((''username'', JStr (username u))
           # (case role u of None \<Rightarrow> [] | Some r \<Rightarrow> [(''role'', JStr r)]))"

definition nullable :: "('a \<Rightarrow> jsval) \<Rightarrow> 'a option \<Rightarrow> jsval" where
  "nullable f x = (case x of None \<Rightarrow> JNull | Some v \<Rightarrow> f v)"

text \<open>The \<^verbatim>\<open>AuthSnapshot\<close> object literal built by \<^verbatim>\<open>persist\<close>.\<close>

definition snapshot_val :: "AuthTokens \<Rightarrow> AuthUser option \<Rightarrow> jsval" where
  "snapshot_val t u = JObj [(''tokens'', tokens_val t), (''user'', nullable user_val u)]"

text \<open>
  The state of the provider: its four \<^verbatim>\<open>useState\<close> cells, and the parts of the world
  it acts on: \<^verbatim>\<open>localStorage\<close> (a map from keys to strings, without a quota), whether
  \<^verbatim>\<open>window\<close> is defined, and the routes pushed to the router so far. \<^verbatim>\<open>tokens\<close> and
  \<^verbatim>\<open>user\<close> are dynamic values, since the re-hydration effect stores whatever
  \<^verbatim>\<open>JSON.parse\<close> returned, unchecked.
\<close>

record AuthProvider =
  loading :: bool
  error :: "string option"
  tokens :: jsval
  user :: jsval
  localStorage :: "string \<rightharpoonup> string"
  window_defined :: bool
  pushed :: "string list"

text \<open>The state at mount: the initial values of the four \<^verbatim>\<open>useState\<close> calls.\<close>

definition mount :: "bool \<Rightarrow> (string \<rightharpoonup> string) \<Rightarrow> AuthProvider" where
  "mount w storage =
     \<lparr>loading = True, error = None, tokens = JNull, user = JNull,
      localStorage = storage, window_defined = w, pushed = []\<rparr>"

definition removeItem :: "string \<Rightarrow> AuthProvider \<Rightarrow> AuthProvider" where
  "removeItem k s = s\<lparr>localStorage := (localStorage s)(k := None)\<rparr>"

definition setItem :: "string \<Rightarrow> string \<Rightarrow> AuthProvider \<Rightarrow> AuthProvider" where
  "setItem k v s = s\<lparr>localStorage := (localStorage s)(k \<mapsto> v)\<rparr>"

text \<open>
  Lines 61 to 74, the effect run once at mount. Inside the \<^verbatim>\<open>try\<close>, \<^verbatim>\<open>parsed.tokens\<close>
  throws when \<^verbatim>\<open>parsed\<close> is \<^verbatim>\<open>null\<close>; whatever is thrown, the \<^verbatim>\<open>catch\<close> removes
  the entry. \<^verbatim>\<open>if (stored)\<close> skips a missing entry and an empty string.
\<close>

definition rehydrate :: "platform \<Rightarrow> AuthProvider \<Rightarrow> AuthProvider" where
  "rehydrate P s =
     (if \<not> window_defined s then s
      else
        (let s1 =
           (case localStorage s STORAGE_KEY of
              None \<Rightarrow> s
            | Some stored \<Rightarrow>
                if stored = [] then s
                else
                  (case JSON_parse P stored of
                     None \<Rightarrow> removeItem STORAGE_KEY s
                   | Some parsed \<Rightarrow>
                       (case get_prop parsed ''tokens'' of
                          Inl _ \<Rightarrow> removeItem STORAGE_KEY s
                        | Inr t \<Rightarrow>
                            (case get_prop parsed ''user'' of
                               Inl _ \<Rightarrow> removeItem STORAGE_KEY (s\<lparr>tokens := t\<rparr>)
                             | Inr u \<Rightarrow> s\<lparr>tokens := t, user := u\<rparr>))))
         in s1\<lparr>loading := False\<rparr>))"

text \<open>Lines 76 to 90.\<close>

definition persist :: "platform \<Rightarrow> AuthTokens option \<Rightarrow> AuthUser option \<Rightarrow> AuthProvider \<Rightarrow> AuthProvider" where
  "persist P nextTokens nextUser s =
     (if \<not> window_defined s then s
      else
        (case nextTokens of
           None \<Rightarrow> removeItem STORAGE_KEY s
         | Some t \<Rightarrow> setItem STORAGE_KEY (JSON_stringify P (snapshot_val t nextUser)) s))"

text \<open>Lines 92 to 97.\<close>

definition router_push :: "string \<Rightarrow> AuthProvider \<Rightarrow> AuthProvider" where
  "router_push dest s = s\<lparr>pushed := pushed s @ [dest]\<rparr>"

definition logout :: "platform \<Rightarrow> AuthProvider \<Rightarrow> AuthProvider" where
  "logout P s = router_push ''/'' (persist P None None (s\<lparr>tokens := JNull, user := JNull\<rparr>))"

text \<open>
  Lines 99 to 124. The answer of \<^verbatim>\<open>apiFetch("/api/users/")\<close> is an argument, with the
  type the code gives it. An error is logged and swallowed.
\<close>

definition loadUserProfile ::
  "platform \<Rightarrow> AuthTokens \<Rightarrow> string \<Rightarrow> js_error + AuthUser list \<Rightarrow> AuthProvider
     \<Rightarrow> AuthUser option \<times> AuthProvider" where
  "loadUserProfile P authTokens uname response s =
     (case response of
        Inl profileError \<Rightarrow> (None, s)
      | Inr data \<Rightarrow>
          (case find (\<lambda>item. username item = uname) data of
             None \<Rightarrow> (None, s)
           | Some found \<Rightarrow>
               (let enriched = \<lparr>username = username found, role = role found\<rparr>
                in (Some enriched,
                    persist P (Some authTokens) (Some enriched) (s\<lparr>user := user_val enriched\<rparr>)))))"

text \<open>
  Lines 126 to 167. \<^verbatim>\<open>login\<close> is asynchronous: it runs up to the request for the tokens,
  resumes when that request is answered, stops again at the request of
  \<^verbatim>\<open>loadUserProfile\<close>, and resumes when that one is answered. The three stretches are three
  functions; the answers of the two requests are arguments. \<open>login\<close> is the three in a row,
  with nothing else running in between; its result is \<open>Inl\<close> when \<^verbatim>\<open>login\<close> rethrows.
\<close>

definition login_error_text :: "platform \<Rightarrow> js_error \<Rightarrow> string" where
  "login_error_text P err =
     (case err of
        ApiError m st details \<Rightarrow>
          if truthy details then JSON_stringify P details
          else ''Credenciales inv'' @ a_acute @ ''lidas''
      | _ \<Rightarrow> ''No se pudo iniciar sesi'' @ o_acute @ ''n, int'' @ e_acute @ ''ntalo nuevamente.'')"

definition login_start :: "AuthProvider \<Rightarrow> AuthProvider" where
  "login_start s = s\<lparr>loading := True, error := None\<rparr>"

definition login_failed :: "platform \<Rightarrow> js_error \<Rightarrow> AuthProvider \<Rightarrow> (js_error + unit) \<times> AuthProvider" where
  "login_failed P err s =
     (Inl err, s\<lparr>error := Some (login_error_text P err), loading := False\<rparr>)"

definition login_got_tokens ::
  "platform \<Rightarrow> LoginCredentials \<Rightarrow> AuthTokens \<Rightarrow> AuthProvider \<Rightarrow> AuthProvider" where
  "login_got_tokens P credentials tokenResponse s =
     (let s = s\<lparr>tokens := tokens_val tokenResponse\<rparr>;
          baseUser = \<lparr>username = cred_username credentials, role = None\<rparr>;
          s = s\<lparr>user := user_val baseUser\<rparr>
      in persist P (Some tokenResponse) (Some baseUser) s)"

definition login_got_profile ::
  "platform \<Rightarrow> LoginCredentials \<Rightarrow> AuthTokens \<Rightarrow> js_error + AuthUser list \<Rightarrow> AuthProvider
     \<Rightarrow> (js_error + unit) \<times> AuthProvider" where
  "login_got_profile P credentials tokenResponse profile_response s =
     (let baseUser = \<lparr>username = cred_username credentials, role = None\<rparr>;
          (loadedProfile, s) =
             loadUserProfile P tokenResponse (cred_username credentials) profile_response s;
          targetRole =
             (case loadedProfile of
                None \<Rightarrow> role baseUser
              | Some p \<Rightarrow>
                  (case role p of
                     None \<Rightarrow> role baseUser
                   | Some r \<Rightarrow> if r \<noteq> [] then Some r else role baseUser));
          destination = (if targetRole = Some ''cliente'' then ''/cliente'' else ''/dashboard'');
          s = router_push destination s
      in (Inr (), s\<lparr>loading := False\<rparr>))"

definition login ::
  "platform \<Rightarrow> LoginCredentials \<Rightarrow> js_error + AuthTokens \<Rightarrow> js_error + AuthUser list
     \<Rightarrow> AuthProvider \<Rightarrow> (js_error + unit) \<times> AuthProvider" where
  "login P credentials token_response profile_response s =
     (let s = login_start s in
      case token_response of
        Inl err \<Rightarrow> login_failed P err s
      | Inr tokenResponse \<Rightarrow>
          login_got_profile P credentials tokenResponse profile_response
            (login_got_tokens P credentials tokenResponse s))"

text \<open>
  A logout that runs while \<^verbatim>\<open>login\<close> waits for the answer of \<^verbatim>\<open>loadUserProfile\<close>: the
  logout button of the navigation bar is shown as soon as \<^verbatim>\<open>user\<close> is set, which
  \<^verbatim>\<open>login\<close> does before that request.
\<close>

definition logout_during_login ::
  "platform \<Rightarrow> LoginCredentials \<Rightarrow> AuthTokens \<Rightarrow> js_error + AuthUser list \<Rightarrow> AuthProvider
     \<Rightarrow> AuthProvider" where
  "logout_during_login P credentials tokenResponse profile_response s =
     snd (login_got_profile P credentials tokenResponse profile_response
            (logout P (login_got_tokens P credentials tokenResponse (login_start s))))"

text \<open>Lines 169 to 200.\<close>

definition register_error_text :: "platform \<Rightarrow> js_error \<Rightarrow> string" where
  "register_error_text P err =
     (case err of
        ApiError m st details \<Rightarrow>
          if truthy details then JSON_stringify P details
          else ''No se pudo registrar el usuario.''
      | _ \<Rightarrow> ''Ocurri'' @ o_acute @ '' un error inesperado durante el registro.'')"

definition register ::
  "platform \<Rightarrow> RegisterPayload \<Rightarrow> js_error + jsval \<Rightarrow> js_error + AuthTokens
     \<Rightarrow> js_error + AuthUser list \<Rightarrow> AuthProvider \<Rightarrow> (js_error + unit) \<times> AuthProvider" where
  "register P payload create_response token_response profile_response s =
     (let s = s\<lparr>loading := True, error := None\<rparr> in
      case create_response of
        Inl err \<Rightarrow>
          (Inl err, s\<lparr>error := Some (register_error_text P err), loading := False\<rparr>)
      | Inr _ \<Rightarrow>
          (case login P \<lparr>cred_username = reg_username payload, cred_password = reg_password payload\<rparr>
                  token_response profile_response s of
             (Inl err, s) \<Rightarrow>
               (Inl err, s\<lparr>error := Some (register_error_text P err), loading := False\<rparr>)
           | (Inr _, s) \<Rightarrow> (Inr (), s\<lparr>loading := False\<rparr>)))"

text \<open>\<^verbatim>\<open>accessToken: tokens?.access ?? null\<close>, the token the provider exposes.\<close>

definition context_accessToken :: "AuthProvider \<Rightarrow> jsval" where
  "context_accessToken s =
     (if tokens s = JNull \<or> tokens s = JUndefined then JNull
      else
        (case get_prop (tokens s) ''access'' of
           Inl _ \<Rightarrow> JNull
         | Inr v \<Rightarrow> if v = JNull \<or> v = JUndefined then JNull else v))"

text \<open>
  The operations the provider offers to the rest of the application, each run to its end,
  and a run of several of them.
\<close>

datatype auth_event =
    Login LoginCredentials "js_error + AuthTokens" "js_error + AuthUser list"
  | Register RegisterPayload "js_error + jsval" "js_error + AuthTokens" "js_error + AuthUser list"
  | Logout

fun auth_step :: "platform \<Rightarrow> AuthProvider \<Rightarrow> auth_event \<Rightarrow> AuthProvider" where
  "auth_step P s (Login c tr pr) = snd (login P c tr pr s)"
| "auth_step P s (Register p cr tr pr) = snd (register P p cr tr pr s)"
| "auth_step P s Logout = logout P s"

definition auth_run :: "platform \<Rightarrow> AuthProvider \<Rightarrow> auth_event list \<Rightarrow> AuthProvider" where
  "auth_run P s evs = foldl (auth_step P) s evs"

text \<open>The invariant: an entry is stored under the key exactly when the tokens are not null.\<close>

definition tokens_present :: "AuthProvider \<Rightarrow> bool" where
  "tokens_present s = (tokens s \<noteq> JNull \<and> tokens s \<noteq> JUndefined)"

definition session_inv :: "AuthProvider \<Rightarrow> bool" where
  "session_inv s = ((localStorage s STORAGE_KEY \<noteq> None) = tokens_present s)"

section \<open>The customer wallet (\<^verbatim>\<open>app/cliente/page.tsx\<close>)\<close>

subsection \<open>Grouping the catalog by category\<close>

text \<open>
  The fields of the TypeScript types carry a prefix here, since several types of the
  application share field names. Identifiers and counters are integers.
\<close>

record CatalogProduct =
  cp_id :: int
  cp_local :: int
  cp_name :: string
  cp_description :: string
  cp_price :: string
  cp_category :: "int option"
  cp_category_name :: string
  cp_category_slug :: string
  cp_display_order :: int
  cp_image_url :: "string option"
  cp_in_stock :: bool
  cp_is_active :: bool
  cp_state :: string
  cp_stock_state :: string

record CatalogGroup =
  categoryId :: "int option"
  categoryName :: string
  items :: "CatalogProduct list"

text \<open>The keys of \<^verbatim>\<open>Map<number | "uncategorized", number>\<close>.\<close>

datatype map_key = uncategorized | category_key int

text \<open>
  \<^verbatim>\<open>const key = product.category ?? -1;\<close>
  \<^verbatim>\<open>const mapKey = key === -1 ? "uncategorized" : key;\<close>
\<close>

definition product_key :: "CatalogProduct \<Rightarrow> int" where
  "product_key product = (case cp_category product of None \<Rightarrow> - 1 | Some c \<Rightarrow> c)"

definition product_mapKey :: "CatalogProduct \<Rightarrow> map_key" where
  "product_mapKey product =
     (if product_key product = - 1 then uncategorized else category_key (product_key product))"

definition Sin_categoria :: string where
  "Sin_categoria = ''Sin categor'' @ i_acute @ ''a''"

definition new_group :: "CatalogProduct \<Rightarrow> CatalogGroup" where
  "new_group product =
     \<lparr>categoryId = cp_category product,
      categoryName = (if cp_category_name product \<noteq> [] then cp_category_name product
                      else Sin_categoria),
      items = []\<rparr>"

text \<open>The two local variables of the function, which the loop body updates.\<close>

record grouping =
  groups :: "CatalogGroup list"
  indexByCategory :: "map_key \<rightharpoonup> nat"

text \<open>
  The body of the \<^verbatim>\<open>forEach\<close> callback. \<^verbatim>\<open>groups[groupIndex].items.push(product)\<close>
  throws a TypeError when the index is out of range.
\<close>

definition push_item :: "CatalogGroup list \<Rightarrow> nat \<Rightarrow> CatalogProduct \<Rightarrow> js_error + CatalogGroup list" where
  "push_item gs groupIndex product =
     (if groupIndex < length gs
      then Inr (gs[groupIndex := (gs ! groupIndex)\<lparr>items := items (gs ! groupIndex) @ [product]\<rparr>])
      else Inl TypeError)"

definition group_step :: "grouping \<Rightarrow> CatalogProduct \<Rightarrow> js_error + grouping" where
  "group_step g product =
     (let mapKey = product_mapKey product;
          (groupIndex, g) =
             (case indexByCategory g mapKey of
                Some i \<Rightarrow> (i, g)
              | None \<Rightarrow>
                  (length (groups g),
                   \<lparr>groups = groups g @ [new_group product],
                    indexByCategory = (indexByCategory g)(mapKey \<mapsto> length (groups g))\<rparr>))
      in case push_item (groups g) groupIndex product of
           Inl e \<Rightarrow> Inl e
         | Inr gs \<Rightarrow> Inr (g\<lparr>groups := gs\<rparr>))"

fun group_forEach :: "grouping \<Rightarrow> CatalogProduct list \<Rightarrow> js_error + grouping" where
  "group_forEach g [] = Inr g"
| "group_forEach g (product # rest) =
     (case group_step g product of
        Inl e \<Rightarrow> Inl e
      | Inr g' \<Rightarrow> group_forEach g' rest)"

definition groupProductsByCategory :: "CatalogProduct list \<Rightarrow> js_error + CatalogGroup list" where
  "groupProductsByCategory products =
     (case group_forEach \<lparr>groups = [], indexByCategory = Map.empty\<rparr> products of
        Inl e \<Rightarrow> Inl e
      | Inr g \<Rightarrow> Inr (groups g))"

text \<open>
  What the function is meant to compute, said directly: the keys in the order of their
  first occurrence, and for each key the group made from the first product with that key
  and holding all products with that key, in the order of the input.
\<close>

definition first_occurrences :: "'a list \<Rightarrow> 'a list" where
  "first_occurrences ks = fold (\<lambda>k acc. if k \<in> set acc then acc else acc @ [k]) ks []"

definition group_for :: "CatalogProduct list \<Rightarrow> map_key \<Rightarrow> CatalogGroup" where
  "group_for products k =
     (case find (\<lambda>p. product_mapKey p = k) products of
        None \<Rightarrow> \<lparr>categoryId = None, categoryName = Sin_categoria, items = []\<rparr>
      | Some p \<Rightarrow> (new_group p)\<lparr>items := filter (\<lambda>p. product_mapKey p = k) products\<rparr>)"

definition grouped_by_key :: "CatalogProduct list \<Rightarrow> CatalogGroup list" where
  "grouped_by_key products =
     map (group_for products) (first_occurrences (map product_mapKey products))"

subsection \<open>The list of coffee shops\<close>

record TagDetails =
  td_id :: int
  td_name :: string
  td_icon :: "string option"
  td_accent_color :: "string option"

record Local =
  lc_id :: int
  lc_name :: string
  lc_headline :: string
  lc_highlights :: string
  lc_description :: string
  lc_address :: string
  lc_schedule :: string
  lc_type :: string
  lc_cover_image_url :: "string option"
  lc_website_url :: string
  lc_instagram_url :: string
  lc_contact_phone :: string
  lc_contact_email :: string
  lc_map_url :: string
  lc_points_rate :: int
  lc_tag_details :: "TagDetails list"

text \<open>
  \<^verbatim>\<open>Array.prototype.sort\<close> with a comparison function. The language requires the sort to
  be stable, and for a consistent comparison function the result of a stable sort is
  determined; it is computed here by insertion. \<^verbatim>\<open>String.prototype.localeCompare\<close>
  depends on the locale of the browser and is a parameter: it returns a negative number,
  zero or a positive number.
\<close>

fun insert_by :: "('a \<Rightarrow> 'a \<Rightarrow> int) \<Rightarrow> 'a \<Rightarrow> 'a list \<Rightarrow> 'a list" where
  "insert_by cmp x [] = [x]"
| "insert_by cmp x (y # ys) = (if cmp x y \<le> 0 then x # y # ys else y # insert_by cmp x ys)"

definition Array_sort :: "('a \<Rightarrow> 'a \<Rightarrow> int) \<Rightarrow> 'a list \<Rightarrow> 'a list" where
  "Array_sort cmp xs = foldr (insert_by cmp) xs []"

text \<open>The three state cells that \<^verbatim>\<open>fetchLocals\<close> writes.\<close>

record locals_panel =
  locals :: "Local list"
  localsLoading :: bool
  localsError :: "string option"

definition No_pudimos_listar :: string where
  "No_pudimos_listar = ''No pudimos listar las cafeter'' @ i_acute @ ''as.''"

text \<open>
  The message of a \<^verbatim>\<open>catch\<close> block of the pages: the details of an \<^verbatim>\<open>ApiError\<close> when
  they are a non-empty string, the fixed text otherwise.
\<close>

definition catch_message :: "string \<Rightarrow> js_error \<Rightarrow> string" where
  "catch_message fixed err =
     (case err of
        ApiError m st details \<Rightarrow>
          (if truthy details then (case details of JStr d \<Rightarrow> d | _ \<Rightarrow> fixed) else fixed)
      | _ \<Rightarrow> fixed)"

text \<open>
  Lines 279 to 302. The answer of \<^verbatim>\<open>apiFetch("/api/locals/")\<close> is an argument.
\<close>

definition shown_type :: "Local \<Rightarrow> bool" where
  "shown_type l = (lc_type l \<in> set [''cafeteria'', ''hibrido''])"

definition by_name :: "(string \<Rightarrow> string \<Rightarrow> int) \<Rightarrow> Local \<Rightarrow> Local \<Rightarrow> int" where
  "by_name localeCompare a b = localeCompare (lc_name a) (lc_name b)"

definition fetchLocals ::
  "(string \<Rightarrow> string \<Rightarrow> int) \<Rightarrow> js_error + Local list \<Rightarrow> locals_panel \<Rightarrow> locals_panel" where
  "fetchLocals localeCompare response s =
     (let s = s\<lparr>localsLoading := True, localsError := None\<rparr>;
          s = (case response of
                 Inr response \<Rightarrow>
                   (let filtered = Array_sort (by_name localeCompare) (filter shown_type response)
                    in s\<lparr>locals := filtered\<rparr>)
               | Inl err \<Rightarrow> s\<lparr>localsError := Some (catch_message No_pudimos_listar err)\<rparr>)
      in s\<lparr>localsLoading := False\<rparr>)"

text \<open>
  A comparison function is consistent when it orders its arguments as a total preorder
  does. (This is what the language asks of the argument of \<^verbatim>\<open>sort\<close>.)
\<close>

definition consistent :: "('a \<Rightarrow> 'a \<Rightarrow> int) \<Rightarrow> bool" where
  "consistent cmp =
     ((\<forall>a b. (cmp a b \<le> 0) \<or> (cmp b a \<le> 0)) \<and>
      (\<forall>a b. (cmp a b < 0) = (cmp b a > 0)) \<and>
      (\<forall>a b c. cmp a b \<le> 0 \<and> cmp b c \<le> 0 \<longrightarrow> cmp a c \<le> 0))"

subsection \<open>The out-of-stock notice of a catalog entry\<close>

text \<open>
  Lines 800 to 805: \<^verbatim>\<open>!product.in_stock || product.stock_state === "out"\<close> decides
  whether the notice is shown.
\<close>

definition out_of_stock_notice :: "CatalogProduct \<Rightarrow> string option" where
  "out_of_stock_notice product =
     (if \<not> cp_in_stock product \<or> cp_stock_state product = ''out''
      then Some ''Sin stock temporalmente'' else None)"

section \<open>The product console (\<^verbatim>\<open>app/register/page.tsx\<close>, third file)\<close>

text \<open>\<^verbatim>\<open>type StockState = "available" | "normal" | "low" | "critical" | "out"\<close>\<close>

datatype StockState = available | normal | low | critical | out

datatype tag_scope = scope_general | scope_product | scope_local

record Tag =
  tag_id :: int
  tag_name :: string
  tag_slug :: string
  tag_scope :: tag_scope
  tag_description :: "string option"
  tag_icon :: "string option"
  tag_accent_color :: "string option"

record Product =
  pr_id :: int
  pr_local :: int
  pr_local_name :: string
  pr_category :: int
  pr_category_name :: string
  pr_category_slug :: string
  pr_category_tracks_stock :: bool
  pr_tracks_stock :: bool
  pr_name :: string
  pr_description :: string
  pr_price :: string
  pr_stock :: int
  pr_in_stock :: bool
  pr_stock_state :: StockState
  pr_low_stock_threshold :: int
  pr_critical_stock_threshold :: int
  pr_display_order :: int
  pr_state :: string
  pr_is_active :: bool
  pr_image_url :: "string option"
  pr_tags :: "int list option"
  pr_tag_details :: "Tag list option"
  pr_created_at :: string
  pr_updated_at :: string

text \<open>The two tables of type \<^verbatim>\<open>Record<StockState, string>\<close>, entry for entry.\<close>

fun STOCK_STATE_LABELS :: "StockState \<Rightarrow> string" where
  "STOCK_STATE_LABELS available = ''Disponible''"
| "STOCK_STATE_LABELS normal = ''Stock saludable''"
| "STOCK_STATE_LABELS low = ''Stock bajo''"
| "STOCK_STATE_LABELS critical = ''Stock cr'' @ i_acute @ ''tico''"
| "STOCK_STATE_LABELS out = ''Sin stock''"

definition surface_alt :: string where
  "surface_alt = ''bg-(--surface-alt) text-(--muted-foreground)''"

fun STOCK_BADGE_CLASSES :: "StockState \<Rightarrow> string" where
  "STOCK_BADGE_CLASSES available = surface_alt"
| "STOCK_BADGE_CLASSES normal = surface_alt"
| "STOCK_BADGE_CLASSES low = ''bg-yellow-100 text-yellow-800''"
| "STOCK_BADGE_CLASSES critical = ''bg-red-100 text-red-700''"
| "STOCK_BADGE_CLASSES out = ''bg-red-200 text-red-800''"

text \<open>
  What the cell of the column \<^verbatim>\<open>stock\<close> shows (lines 2248 to 2305), without the
  styling that does not depend on the product. For a product that tracks stock: whether the
  minus button is disabled, the class of the badge, the quantity in the badge, whether the
  plus button is disabled, and the label after \<^verbatim>\<open>Estado:\<close>. For the others: the class and
  the text of the badge, and the toggle button (disabled or not, and its text).
\<close>

datatype stock_cell =
    TrackedStock bool string int bool string
  | UntrackedStock string string bool string

definition stock_column_cell :: "int option \<Rightarrow> Product \<Rightarrow> stock_cell" where
  "stock_column_cell updatingProductId product =
     (let isUpdating = (updatingProductId = Some (pr_id product));
          tracksStock = pr_tracks_stock product;
          stockStateClass = STOCK_BADGE_CLASSES (pr_stock_state product);
          stockStateLabel = STOCK_STATE_LABELS (pr_stock_state product)
      in if tracksStock
         then TrackedStock (isUpdating \<or> pr_stock product = 0) stockStateClass (pr_stock product)
                isUpdating stockStateLabel
         else UntrackedStock
                (if pr_in_stock product then surface_alt else ''bg-red-100 text-red-700'')
                (if pr_in_stock product then ''Disponible'' else ''Sin stock'')
                isUpdating
                (if pr_in_stock product then ''Marcar sin stock'' else ''Marcar con stock''))"

text \<open>The label of the stock state that a cell shows, and the class of its badge.\<close>

fun shown_label :: "stock_cell \<Rightarrow> string" where
  "shown_label (TrackedStock _ _ _ _ l) = l"
| "shown_label (UntrackedStock _ l _ _) = l"

fun shown_badge_class :: "stock_cell \<Rightarrow> string" where
  "shown_badge_class (TrackedStock _ c _ _ _) = c"
| "shown_badge_class (UntrackedStock c _ _ _) = c"

text \<open>Lines 1662 to 1668, the products counted as critical.\<close>

definition criticalProducts :: "Product list \<Rightarrow> Product list" where
  "criticalProducts visibleProducts =
     filter (\<lambda>product. pr_tracks_stock product \<and> pr_stock_state product = critical) visibleProducts"

section \<open>The orders operations page\<close>

subsection \<open>Order status\<close>

text \<open>
  \<^verbatim>\<open>ORDER_STATUSES\<close> and the type \<^verbatim>\<open>OrderStatus\<close> derived from it: a union of five
  string literals, here a datatype with the same five names.
\<close>

datatype OrderStatus = pendiente | preparando | listo | completado | cancelado

definition ORDER_STATUSES :: "OrderStatus list" where
  "ORDER_STATUSES = [pendiente, preparando, listo, completado, cancelado]"

text \<open>\<^verbatim>\<open>NEXT_STATUS_OPTIONS: Record<OrderStatus, OrderStatus[]>\<close>, entry for entry.\<close>

fun NEXT_STATUS_OPTIONS :: "OrderStatus \<Rightarrow> OrderStatus list" where
  "NEXT_STATUS_OPTIONS pendiente = [preparando, cancelado]"
| "NEXT_STATUS_OPTIONS preparando = [listo, cancelado]"
| "NEXT_STATUS_OPTIONS listo = [completado, cancelado]"
| "NEXT_STATUS_OPTIONS completado = []"
| "NEXT_STATUS_OPTIONS cancelado = []"

text \<open>
  The card of an order shows one button for each element of
  \<^verbatim>\<open>NEXT_STATUS_OPTIONS[order.status]\<close>, and the text \<^verbatim>\<open>Sin acciones disponibles\<close> when
  there is none. A click calls \<^verbatim>\<open>handleStatusUpdate(order, nextStatus)\<close>, which posts
  \<^verbatim>\<open>{status: nextStatus}\<close> for that order.
\<close>

datatype order_actions = Buttons "OrderStatus list" | Sin_acciones_disponibles

definition order_card_actions :: "OrderStatus \<Rightarrow> order_actions" where
  "order_card_actions st =
     (let nextStatuses = NEXT_STATUS_OPTIONS st
      in if length nextStatuses > 0 then Buttons nextStatuses else Sin_acciones_disponibles)"

text \<open>The step relation that the buttons induce on the status of an order.\<close>

inductive offered :: "OrderStatus \<Rightarrow> OrderStatus \<Rightarrow> bool" where
  button: "order_card_actions st = Buttons nexts \<Longrightarrow> st' \<in> set nexts \<Longrightarrow> offered st st'"

code_pred offered .

subsection \<open>The polling timer\<close>

definition REFRESH_INTERVAL_MS :: nat where
  "REFRESH_INTERVAL_MS = 30000"

text \<open>
  The timers of the window: the intervals that are scheduled, each with its handle, its
  callback and its delay, and the next handle. After the HTML standard, \<^verbatim>\<open>setInterval\<close>
  returns a handle greater than zero that is not in use, and \<^verbatim>\<open>clearInterval\<close> removes the
  interval with the given handle, if there is one.
\<close>

record 'f timers =
  next_handle :: nat
  scheduled :: "(nat \<times> 'f \<times> nat) list"

definition no_timers :: "'f timers" where
  "no_timers = \<lparr>next_handle = 1, scheduled = []\<rparr>"

definition window_setInterval :: "'f \<Rightarrow> nat \<Rightarrow> 'f timers \<Rightarrow> nat \<times> 'f timers" where
  "window_setInterval callback delay w =
     (next_handle w,
      \<lparr>next_handle = Suc (next_handle w),
       scheduled = scheduled w @ [(next_handle w, callback, delay)]\<rparr>)"

definition window_clearInterval :: "nat \<Rightarrow> 'f timers \<Rightarrow> 'f timers" where
  "window_clearInterval h w = w\<lparr>scheduled := filter (\<lambda>(h', _). h' \<noteq> h) (scheduled w)\<rparr>"

text \<open>
  The part of the page the effect of lines 428 to 442 works on: the timers,
  \<^verbatim>\<open>pollRef.current\<close> (a handle or \<^verbatim>\<open>null\<close>), and whether the last run of the effect
  returned a cleanup function. The callback of the interval calls the \<^verbatim>\<open>fetchData\<close> of the
  render that scheduled it; \<open>'f\<close> is the type of these functions.
\<close>

record 'f polling =
  window_timers :: "'f timers"
  pollRef :: "nat option"
  has_cleanup :: bool

definition polling_mount :: "'f polling" where
  "polling_mount = \<lparr>window_timers = no_timers, pollRef = None, has_cleanup = False\<rparr>"

text \<open>\<^verbatim>\<open>if (pollRef.current) window.clearInterval(pollRef.current)\<close>\<close>

definition clear_poll :: "'f polling \<Rightarrow> 'f polling" where
  "clear_poll s =
     (case pollRef s of
        None \<Rightarrow> s
      | Some h \<Rightarrow>
          if h \<noteq> 0 then s\<lparr>window_timers := window_clearInterval h (window_timers s)\<rparr> else s)"

text \<open>The body of the effect, and the cleanup function it returns.\<close>

definition poll_effect :: "string option \<Rightarrow> 'f \<Rightarrow> 'f polling \<Rightarrow> 'f polling" where
  "poll_effect accessToken fetchData s =
     (if \<not> token_truthy accessToken then s\<lparr>has_cleanup := False\<rparr>
      else
        (let s = clear_poll s;
             (h, w) = window_setInterval fetchData REFRESH_INTERVAL_MS (window_timers s)
         in s\<lparr>window_timers := w, pollRef := Some h, has_cleanup := True\<rparr>))"

definition poll_cleanup :: "'f polling \<Rightarrow> 'f polling" where
  "poll_cleanup s = clear_poll s"

text \<open>
  How React runs an effect with dependencies \<^verbatim>\<open>[accessToken, fetchData]\<close>: at mount, and
  again whenever a dependency has changed, after the cleanup function of the previous run
  (if that run returned one); at unmount the last cleanup function is called.
\<close>

definition run_cleanup :: "'f polling \<Rightarrow> 'f polling" where
  "run_cleanup s = (if has_cleanup s then poll_cleanup s else s)"

definition effect_run :: "'f polling \<Rightarrow> string option \<times> 'f \<Rightarrow> 'f polling" where
  "effect_run s deps = poll_effect (fst deps) (snd deps) (run_cleanup s)"

definition effect_runs :: "(string option \<times> 'f) list \<Rightarrow> 'f polling" where
  "effect_runs renders = foldl effect_run polling_mount renders"

definition unmount :: "'f polling \<Rightarrow> 'f polling" where
  "unmount s = (run_cleanup s)\<lparr>has_cleanup := False\<rparr>"

text \<open>
  A state of the page is well formed when every handle in use is below the next handle, the
  handle in \<^verbatim>\<open>pollRef\<close> as well, and the intervals scheduled are: the one of \<^verbatim>\<open>pollRef\<close>
  alone, with the delay of the page, when a cleanup function is pending, and none otherwise.
\<close>

definition poll_inv :: "'f polling \<Rightarrow> bool" where
  "poll_inv s =
     (0 < next_handle (window_timers s) \<and>
      (case pollRef s of None \<Rightarrow> True | Some h \<Rightarrow> 0 < h \<and> h < next_handle (window_timers s)) \<and>
      (if has_cleanup s
       then (\<exists>h f. pollRef s = Some h \<and>
               scheduled (window_timers s) = [(h, f, REFRESH_INTERVAL_MS)])
       else scheduled (window_timers s) = []))"

section \<open>The loyalty dashboard\<close>

record TopCustomer =
  user_id :: int
  user_name :: string
  local_id :: int
  local_name :: string
  total_points :: int

text \<open>
  The type declares \<^verbatim>\<open>reward_id: number\<close> and \<^verbatim>\<open>reward_name: string\<close>; the page
  nevertheless provides for both being \<^verbatim>\<open>null\<close> (with \<^verbatim>\<open>??\<close>), so they are optional here.
\<close>

record TopReward =
  reward_id :: "int option"
  reward_name :: "string option"
  redemptions :: int

record LoyaltySummary =
  ls_total_points :: int
  ls_active_customers :: int
  ls_active_rewards :: int
  ls_total_rewards :: int
  ls_redemptions_last_window :: int
  ls_points_redeemed_last_window :: int
  top_customers :: "TopCustomer list"
  top_rewards :: "TopReward list"
  ls_generated_at :: string
  ls_window_days :: int

text \<open>
  The state cells that \<^verbatim>\<open>fetchData\<close> writes. The balances, rewards and redemptions are
  stored as received; their types play no role here and are parameters.
\<close>

record ('b, 'r, 'd) loyalty_page =
  lp_summary :: "LoyaltySummary option"
  lp_balances :: "'b list"
  lp_rewards :: "'r list"
  lp_redemptions :: "'d list"
  lp_loading :: bool
  lp_refreshing :: bool
  lp_error :: "string option"

definition No_pudimos_cargar_lealtad :: string where
  "No_pudimos_cargar_lealtad = ''No pudimos cargar los datos de lealtad.''"

text \<open>
  \<^verbatim>\<open>fetchData\<close> of the loyalty dashboard (lines 924 to 1004 of the second file). The four
  requests go through \<^verbatim>\<open>Promise.all\<close>, so their answers are one argument: the four
  values, or the error of a request that failed.
\<close>

definition loyalty_fetchData ::
  "string option \<Rightarrow> bool \<Rightarrow> js_error + (LoyaltySummary \<times> 'b list \<times> 'r list \<times> 'd list)
     \<Rightarrow> ('b, 'r, 'd) loyalty_page \<Rightarrow> ('b, 'r, 'd) loyalty_page" where
  "loyalty_fetchData accessToken initial responses s =
     (if \<not> token_truthy accessToken then s
      else
        (let s = s\<lparr>lp_error := None\<rparr>;
             s = (if initial then s\<lparr>lp_loading := True\<rparr> else s\<lparr>lp_refreshing := True\<rparr>);
             s = (case responses of
                    Inr (summaryResponse, balancesResponse, rewardsResponse, redemptionsResponse) \<Rightarrow>
                      s\<lparr>lp_summary := Some summaryResponse, lp_balances := balancesResponse,
                        lp_rewards := rewardsResponse, lp_redemptions := redemptionsResponse\<rparr>
                  | Inl err \<Rightarrow> s\<lparr>lp_error := Some (catch_message No_pudimos_cargar_lealtad err)\<rparr>)
         in s\<lparr>lp_loading := False, lp_refreshing := False\<rparr>))"

text \<open>
  The two panels (lines 1242 to 1290): a list of rows, each with its React key, its text
  and its figure, or a placeholder. \<^verbatim>\<open>formatNumber\<close> is \<^verbatim>\<open>Intl.NumberFormat("es-CL")\<close>,
  a parameter.
\<close>

datatype row_key = customer_key int int | reward_key_id int | reward_key_name "string option"

record panel_row =
  row_key :: row_key
  row_text :: string
  row_figure :: string

datatype panel = Rows "panel_row list" | Sin_datos_disponibles

definition customer_row :: "(int \<Rightarrow> string) \<Rightarrow> TopCustomer \<Rightarrow> panel_row" where
  "customer_row formatNumber customer =
     \<lparr>row_key = customer_key (user_id customer) (local_id customer),
      row_text = user_name customer,
      row_figure = formatNumber (total_points customer) @ '' pts''\<rparr>"

definition reward_row :: "(int \<Rightarrow> string) \<Rightarrow> TopReward \<Rightarrow> panel_row" where
  "reward_row formatNumber reward =
     \<lparr>row_key = (case reward_id reward of
                   Some i \<Rightarrow> reward_key_id i
                 | None \<Rightarrow> reward_key_name (reward_name reward)),
      row_text = (case reward_name reward of Some n \<Rightarrow> n | None \<Rightarrow> ''Recompensa sin nombre''),
      row_figure = formatNumber (redemptions reward) @ '' canjes''\<rparr>"

definition top_customers_panel :: "(int \<Rightarrow> string) \<Rightarrow> LoyaltySummary option \<Rightarrow> panel" where
  "top_customers_panel formatNumber summary =
     (case summary of
        None \<Rightarrow> Sin_datos_disponibles
      | Some s \<Rightarrow>
          if length (top_customers s) \<noteq> 0
          then Rows (map (customer_row formatNumber) (top_customers s))
          else Sin_datos_disponibles)"

definition top_rewards_panel :: "(int \<Rightarrow> string) \<Rightarrow> LoyaltySummary option \<Rightarrow> panel" where
  "top_rewards_panel formatNumber summary =
     (case summary of
        None \<Rightarrow> Sin_datos_disponibles
      | Some s \<Rightarrow>
          if length (top_rewards s) \<noteq> 0
          then Rows (map (reward_row formatNumber) (top_rewards s))
          else Sin_datos_disponibles)"

text \<open>The rows a panel shows: none when it shows the placeholder.\<close>

fun panel_rows :: "panel \<Rightarrow> panel_row list" where
  "panel_rows (Rows rs) = rs"
| "panel_rows Sin_datos_disponibles = []"

section \<open>Sample values\<close>

text \<open>
  Concrete values on which the properties below are instantiated. \<open>sample_parse\<close> and
  \<open>sample_stringify\<close> stand for \<^verbatim>\<open>JSON.parse\<close> and \<^verbatim>\<open>JSON.stringify\<close> on the few
  texts and values of the examples, \<open>sample_fetch\<close> for a server with four routes behind
  a base URL that ends with a slash.
\<close>

definition sample_tokens :: AuthTokens where
  "sample_tokens = \<lparr>access = ''a1'', refresh = ''r1''\<rparr>"

definition sample_user :: AuthUser where
  "sample_user = \<lparr>username = ''ana'', role = Some ''cliente''\<rparr>"

definition sample_base_user :: AuthUser where
  "sample_base_user = \<lparr>username = ''ana'', role = None\<rparr>"

definition sample_snapshot_text :: string where
  \<open>sample_snapshot_text =
     ''{"tokens":{"access":"a1","refresh":"r1"},"user":{"username":"ana","role":"cliente"}}''\<close>

definition sample_base_snapshot_text :: string where
  \<open>sample_base_snapshot_text =
     ''{"tokens":{"access":"a1","refresh":"r1"},"user":{"username":"ana"}}''\<close>

definition sample_error_text :: string where
  \<open>sample_error_text = ''{"detail":"No encontrado"}''\<close>

definition sample_parse :: "string \<Rightarrow> jsval option" where
  "sample_parse text =
     (if text = ''[]'' then Some (JArr [])
      else if text = sample_error_text then Some (JObj [(''detail'', JStr ''No encontrado'')])
      else if text = sample_snapshot_text then Some (snapshot_val sample_tokens (Some sample_user))
      else if text = sample_base_snapshot_text
        then Some (snapshot_val sample_tokens (Some sample_base_user))
      else None)"

definition sample_stringify :: "jsval \<Rightarrow> string" where
  "sample_stringify v =
     (if v = JArr [] then ''[]''
      else if v = JObj [(''detail'', JStr ''No encontrado'')] then sample_error_text
      else if v = snapshot_val sample_tokens (Some sample_user) then sample_snapshot_text
      else if v = snapshot_val sample_tokens (Some sample_base_user) then sample_base_snapshot_text
      else ''null'')"

definition sample_response :: "int \<Rightarrow> string \<Rightarrow> string option \<Rightarrow> Response" where
  "sample_response code reason content =
     \<lparr>ok = (200 \<le> code \<and> code \<le> 299), status = code, statusText = reason,
      body_text = content, bodyUsed = False\<rparr>"

definition sample_fetch :: "string \<Rightarrow> RequestInit \<Rightarrow> js_error + Response" where
  "sample_fetch url init =
     (if url = ''https://api.coffeefy.test/api/locals/''
        then Inr (sample_response 200 ''OK'' (Some ''[]''))
      else if url = ''https://api.coffeefy.test/api/orders/7/''
        then Inr (sample_response 404 '''' (Some sample_error_text))
      else if url = ''https://api.coffeefy.test/api/orders/7/update_status/''
        then Inr (sample_response 204 ''No Content'' None)
      else if url = ''https://api.coffeefy.test/health''
        then Inr (sample_response 200 ''OK'' (Some ''<html></html>''))
      else Inl TypeError)"

definition sample_platform :: platform where
  "sample_platform =
     \<lparr>NEXT_PUBLIC_API_BASE_URL = Some ''https://api.coffeefy.test/'',
      JSON_parse = sample_parse,
      JSON_stringify = sample_stringify,
      fetch = sample_fetch\<rparr>"

definition no_options :: RequestOptions where
  "no_options = \<lparr>opt_method = None, opt_headers = None, opt_body = JUndefined, opt_token = None\<rparr>"

definition sample_credentials :: LoginCredentials where
  "sample_credentials = \<lparr>cred_username = ''ana'', cred_password = ''secreta''\<rparr>"

text \<open>A comparison of strings, byte by byte, with the three results of \<^verbatim>\<open>localeCompare\<close>.\<close>

definition sample_compare :: "string \<Rightarrow> string \<Rightarrow> int" where
  "sample_compare a b = (if a < b then - 1 else if a = b then 0 else 1)"

definition sample_local :: "int \<Rightarrow> string \<Rightarrow> string \<Rightarrow> Local" where
  "sample_local i n t =
     \<lparr>lc_id = i, lc_name = n, lc_headline = [], lc_highlights = [], lc_description = [],
      lc_address = [], lc_schedule = [], lc_type = t, lc_cover_image_url = None,
      lc_website_url = [], lc_instagram_url = [], lc_contact_phone = [], lc_contact_email = [],
      lc_map_url = [], lc_points_rate = 1, lc_tag_details = []\<rparr>"

definition no_locals :: locals_panel where
  "no_locals = \<lparr>locals = [], localsLoading = True, localsError = None\<rparr>"

definition sample_format :: "int \<Rightarrow> string" where
  "sample_format n = (if n = 1200 then ''1.200'' else if n = 35 then ''35'' else ''0'')"

definition sample_summary :: LoyaltySummary where
  "sample_summary =
     \<lparr>ls_total_points = 1235, ls_active_customers = 2, ls_active_rewards = 1,
      ls_total_rewards = 2, ls_redemptions_last_window = 35,
      ls_points_redeemed_last_window = 1200,
      top_customers =
        [\<lparr>user_id = 7, user_name = ''zoe'', local_id = 1, local_name = ''Central'',
          total_points = 35\<rparr>,
         \<lparr>user_id = 4, user_name = ''ana'', local_id = 1, local_name = ''Central'',
          total_points = 1200\<rparr>],
      top_rewards =
        [\<lparr>reward_id = Some 2, reward_name = Some ''Latte'', redemptions = 35\<rparr>,
         \<lparr>reward_id = None, reward_name = None, redemptions = 1200\<rparr>],
      ls_generated_at = ''2025-01-01T00:00:00Z'', ls_window_days = 30\<rparr>"

definition sample_product :: "int \<Rightarrow> bool \<Rightarrow> int \<Rightarrow> bool \<Rightarrow> StockState \<Rightarrow> Product" where
  "sample_product i tracks quantity available_now st =
     \<lparr>pr_id = i, pr_local = 1, pr_local_name = ''Central'', pr_category = 3,
      pr_category_name = ''Granos'', pr_category_slug = ''granos'',
      pr_category_tracks_stock = tracks, pr_tracks_stock = tracks, pr_name = ''Etiopia'',
      pr_description = [], pr_price = ''8900'', pr_stock = quantity, pr_in_stock = available_now,
      pr_stock_state = st, pr_low_stock_threshold = 10, pr_critical_stock_threshold = 3,
      pr_display_order = 0, pr_state = ''normal'', pr_is_active = True, pr_image_url = None,
      pr_tags = None, pr_tag_details = None, pr_created_at = [], pr_updated_at = []\<rparr>"

definition sample_catalog_product :: "int \<Rightarrow> int option \<Rightarrow> string \<Rightarrow> CatalogProduct" where
  "sample_catalog_product i c n =
     \<lparr>cp_id = i, cp_local = 1, cp_name = ''Producto'', cp_description = [], cp_price = ''1000'',
      cp_category = c, cp_category_name = n, cp_category_slug = [], cp_display_order = 0,
      cp_image_url = None, cp_in_stock = True, cp_is_active = True, cp_state = ''normal'',
      cp_stock_state = ''available''\<rparr>"

section \<open>Properties\<close>

subsection \<open>Order status transitions\<close>

lemma offered_iff: "offered st st' \<longleftrightarrow> st' \<in> set (NEXT_STATUS_OPTIONS st)"
  by (cases st) (auto simp: order_card_actions_def intro: offered.intros elim!: offered.cases)

lemma offered_rtrancl_completado: "offered\<^sup>*\<^sup>* st st' \<Longrightarrow> st = completado \<Longrightarrow> st' = completado"
  by (induction rule: rtranclp_induct) (auto simp: offered_iff)

lemma offered_rtrancl_cancelado: "offered\<^sup>*\<^sup>* st st' \<Longrightarrow> st = cancelado \<Longrightarrow> st' = cancelado"
  by (induction rule: rtranclp_induct) (auto simp: offered_iff)

text \<open>
  C9. The table \<^verbatim>\<open>NEXT_STATUS_OPTIONS\<close> offers, from \<^verbatim>\<open>pendiente\<close>, \<^verbatim>\<open>preparando\<close> or
  \<^verbatim>\<open>cancelado\<close>; from \<^verbatim>\<open>preparando\<close>, \<^verbatim>\<open>listo\<close> or \<^verbatim>\<open>cancelado\<close>; from \<^verbatim>\<open>listo\<close>,
  \<^verbatim>\<open>completado\<close> or \<^verbatim>\<open>cancelado\<close>; and nothing from \<^verbatim>\<open>completado\<close> and \<^verbatim>\<open>cancelado\<close>.
  The buttons of an order card offer exactly the transitions of the table, so an order that
  is \<^verbatim>\<open>completado\<close> or \<^verbatim>\<open>cancelado\<close> is offered no transition (its card shows no
  button), and no sequence of offered transitions leads away from either status.
\<close>

theorem next_status_never_leaves_terminal:
  "NEXT_STATUS_OPTIONS pendiente = [preparando, cancelado] \<and>
   NEXT_STATUS_OPTIONS preparando = [listo, cancelado] \<and>
   NEXT_STATUS_OPTIONS listo = [completado, cancelado] \<and>
   NEXT_STATUS_OPTIONS completado = [] \<and>
   NEXT_STATUS_OPTIONS cancelado = [] \<and>
   (offered st st' \<longleftrightarrow> st' \<in> set (NEXT_STATUS_OPTIONS st)) \<and>
   \<not> offered completado st' \<and>
   \<not> offered cancelado st' \<and>
   order_card_actions completado = Sin_acciones_disponibles \<and>
   order_card_actions cancelado = Sin_acciones_disponibles \<and>
   (offered\<^sup>*\<^sup>* completado st' \<longrightarrow> st' = completado) \<and>
   (offered\<^sup>*\<^sup>* cancelado st' \<longrightarrow> st' = cancelado)"
  using offered_rtrancl_completado [of completado st'] offered_rtrancl_cancelado [of cancelado st']
  by (simp add: offered_iff order_card_actions_def)

theorem next_status_never_leaves_terminal_witness:
  "offered\<^sup>*\<^sup>* completado completado \<and>
   offered\<^sup>*\<^sup>* cancelado cancelado \<and>
   offered listo completado \<and>
   \<not> offered completado cancelado \<and>
   \<not> offered cancelado completado"
  using next_status_never_leaves_terminal [of listo completado]
    next_status_never_leaves_terminal [of listo cancelado]
  by simp

subsection \<open>The HTTP helper\<close>

lemma Response_json_fresh:
  "\<not> bodyUsed r \<Longrightarrow>
   Response_json P r =
     (case JSON_parse P (body_string r) of
        None \<Rightarrow> (Inl SyntaxError, read_body r)
      | Some v \<Rightarrow> (Inr v, read_body r))"
  by (simp add: Response_json_def unusable_def)

text \<open>
  The fallback to the text of an error body: after \<^verbatim>\<open>response.json()\<close> has failed on a
  body that is not null, that body has been read, and \<^verbatim>\<open>response.text()\<close> rejects; what
  \<^verbatim>\<open>apiFetch\<close> throws is then the TypeError, not an \<^verbatim>\<open>ApiError\<close>. Only for a null body
  does the fallback produce details, the empty text.
\<close>

lemma apiFetch_response_error_body_not_json:
  assumes "\<not> ok r" and "\<not> bodyUsed r" and "body_text r = Some t" and "JSON_parse P t = None"
  shows "apiFetch_response P r = (Inl TypeError, r\<lparr>bodyUsed := True\<rparr>)"
  using assms
  by (simp add: apiFetch_response_def Response_json_fresh body_string_def read_body_def
      Response_text_def unusable_def)

lemma apiFetch_response_error_null_body:
  assumes "\<not> ok r" and "\<not> bodyUsed r" and "body_text r = None" and "JSON_parse P [] = None"
  shows "fst (apiFetch_response P r) = Inl (ApiError (error_message r) (status r) (JStr []))"
  using assms
  by (simp add: apiFetch_response_def Response_json_fresh body_string_def read_body_def
      Response_text_def unusable_def error_message_def)

lemmas sample_simps =
  sample_platform_def sample_fetch_def sample_response_def sample_parse_def
  sample_stringify_def sample_error_text_def sample_snapshot_text_def
  sample_base_snapshot_text_def sample_tokens_def sample_user_def sample_base_user_def
  no_options_def

lemmas apiFetch_simps =
  apiFetch_def apiFetch_url_def apiFetch_init_def apiFetch_headers_def apiFetch_response_def
  API_BASE_URL_def strip_trailing_slash_def startsWith_def Response_json_def Response_text_def
  unusable_def body_string_def read_body_def error_message_def

text \<open>
  C1, as amended. When \<^verbatim>\<open>fetch\<close> rejects, \<^verbatim>\<open>apiFetch\<close> throws what it rejected with.
  When it answers with a response (whose body has not been read): if the response is not ok
  and its body parses as JSON, \<^verbatim>\<open>apiFetch\<close> throws an \<^verbatim>\<open>ApiError\<close> with the status of the
  response, the status text as message (\<^verbatim>\<open>Solicitud fallida\<close> when that is empty) and the
  parsed body as details; if the response is ok with status 204, \<^verbatim>\<open>apiFetch\<close> returns
  \<^verbatim>\<open>undefined\<close> and leaves the response as it was, its body unread; if it is ok with another
  status, \<^verbatim>\<open>apiFetch\<close> returns the parsed body when the body parses as JSON, and throws the
  SyntaxError of the parser when it does not.
\<close>

theorem apiFetch_outcomes:
  "(fetch P (apiFetch_url P path) (apiFetch_init P options) = Inl e \<longrightarrow>
      apiFetch P path options = Inl e) \<and>
   (fetch P (apiFetch_url P path) (apiFetch_init P options) = Inr r \<and> \<not> bodyUsed r \<longrightarrow>
      (\<not> ok r \<and> JSON_parse P (body_string r) = Some d \<longrightarrow>
         apiFetch P path options =
           Inl (ApiError (if statusText r = [] then ''Solicitud fallida'' else statusText r)
                  (status r) d)) \<and>
      (ok r \<and> status r = 204 \<longrightarrow>
         apiFetch P path options = Inr JUndefined \<and> snd (apiFetch_response P r) = r) \<and>
      (ok r \<and> status r \<noteq> 204 \<and> JSON_parse P (body_string r) = Some v \<longrightarrow>
         apiFetch P path options = Inr v) \<and>
      (ok r \<and> status r \<noteq> 204 \<and> JSON_parse P (body_string r) = None \<longrightarrow>
         apiFetch P path options = Inl SyntaxError))"
  by (auto simp: apiFetch_def apiFetch_response_def Response_json_fresh error_message_def
      read_body_def)

theorem apiFetch_outcomes_witness:
  "fetch sample_platform (apiFetch_url sample_platform ''/api/orders/7/'')
      (apiFetch_init sample_platform no_options)
     = Inr (sample_response 404 [] (Some sample_error_text)) \<and>
   \<not> bodyUsed (sample_response 404 [] (Some sample_error_text)) \<and>
   \<not> ok (sample_response 404 [] (Some sample_error_text)) \<and>
   JSON_parse sample_platform (body_string (sample_response 404 [] (Some sample_error_text)))
     = Some (JObj [(''detail'', JStr ''No encontrado'')]) \<and>
   apiFetch sample_platform ''/api/orders/7/'' no_options
     = Inl (ApiError ''Solicitud fallida'' 404 (JObj [(''detail'', JStr ''No encontrado'')])) \<and>
   apiFetch sample_platform ''/api/orders/7/update_status/'' no_options = Inr JUndefined \<and>
   apiFetch sample_platform ''api/locals/'' no_options = Inr (JArr []) \<and>
   apiFetch sample_platform ''health'' no_options = Inl SyntaxError \<and>
   apiFetch sample_platform ''api/unknown/'' no_options = Inl TypeError"
  using
    apiFetch_outcomes [of sample_platform "''/api/orders/7/''" no_options TypeError
      "sample_response 404 [] (Some sample_error_text)"
      "JObj [(''detail'', JStr ''No encontrado'')]" JNull]
    apiFetch_outcomes [of sample_platform "''/api/orders/7/update_status/''" no_options TypeError
      "sample_response 204 ''No Content'' None" JNull JNull]
    apiFetch_outcomes [of sample_platform "''api/locals/''" no_options TypeError
      "sample_response 200 ''OK'' (Some ''[]'')" JNull "JArr []"]
    apiFetch_outcomes [of sample_platform "''health''" no_options TypeError
      "sample_response 200 ''OK'' (Some ''<html></html>'')" JNull JNull]
    apiFetch_outcomes [of sample_platform "''api/unknown/''" no_options TypeError]
  by (simp add: sample_simps apiFetch_url_def apiFetch_init_def apiFetch_headers_def
      API_BASE_URL_def strip_trailing_slash_def startsWith_def body_string_def)

text \<open>
  C1 as stated fails: a response that is ok, with a body that is not JSON, makes \<^verbatim>\<open>apiFetch\<close>
  throw.
\<close>

theorem apiFetch_throws_on_ok_response:
  "fetch sample_platform (apiFetch_url sample_platform ''health'')
      (apiFetch_init sample_platform no_options)
     = Inr (sample_response 200 ''OK'' (Some ''<html></html>'')) \<and>
   ok (sample_response 200 ''OK'' (Some ''<html></html>'')) \<and>
   apiFetch sample_platform ''health'' no_options = Inl SyntaxError"
  by (simp add: sample_simps apiFetch_simps)

lemma strip_trailing_slash_snoc: "strip_trailing_slash (b @ ''/'') = b"
  by (simp add: strip_trailing_slash_def)

lemma strip_trailing_slash_other: "(\<nexists>b. base = b @ ''/'') \<Longrightarrow> strip_trailing_slash base = base"
  unfolding strip_trailing_slash_def
  by (metis append_butlast_last_id)

lemma startsWith_slash: "startsWith path ''/'' \<longleftrightarrow> (\<exists>rest. path = ''/'' @ rest)"
  by (cases path) (auto simp: startsWith_def)

lemma apiFetch_headers_Authorization:
  "apiFetch_headers options ''Authorization'' =
     (if token_truthy (opt_token options) then Some (''Bearer '' @ the (opt_token options))
      else (case opt_headers options of None \<Rightarrow> None | Some h \<Rightarrow> h ''Authorization''))"
  by (auto simp: apiFetch_headers_def token_truthy_def Let_def map_add_def split: option.splits)

lemma apiFetch_headers_Content_Type:
  "apiFetch_headers options ''Content-Type'' =
     (if opt_body options \<noteq> JUndefined then Some ''application/json''
      else (case opt_headers options of None \<Rightarrow> None | Some h \<Rightarrow> h ''Content-Type''))"
  by (auto simp: apiFetch_headers_def token_truthy_def Let_def map_add_def split: option.splits)

text \<open>
  C2, as amended. The URL is the path itself when the path starts with \<^verbatim>\<open>http\<close>; otherwise
  it is the base URL without one trailing slash (a base \<open>b/\<close> gives \<open>b\<close>, a base that does not
  end with a slash is kept), one slash, and the path without its leading slash if it has
  one. When the token is truthy the header \<^verbatim>\<open>Authorization\<close> is \<^verbatim>\<open>Bearer\<close>, a space and
  the token, whatever the caller's headers say; when it is not, the header is the one of the
  caller's \<^verbatim>\<open>options.headers\<close>, absent if the caller gave none. The header
  \<^verbatim>\<open>Content-Type: application/json\<close> together with a body, the serialized
  \<^verbatim>\<open>options.body\<close>, is present exactly when \<^verbatim>\<open>options.body\<close> is not \<^verbatim>\<open>undefined\<close>, and
  there is no body otherwise. This URL and this \<^verbatim>\<open>RequestInit\<close> are what \<^verbatim>\<open>fetch\<close> is
  called with.
\<close>

theorem apiFetch_request:
  "(startsWith path ''http'' \<longrightarrow> apiFetch_url P path = path) \<and>
   (\<not> startsWith path ''http'' \<longrightarrow>
      apiFetch_url P path =
        strip_trailing_slash (API_BASE_URL P) @ ''/''
          @ (if startsWith path ''/'' then tl path else path)) \<and>
   strip_trailing_slash (b @ ''/'') = b \<and>
   ((\<nexists>b. base = b @ ''/'') \<longrightarrow> strip_trailing_slash base = base) \<and>
   (token_truthy (opt_token options) \<longrightarrow>
      init_headers (apiFetch_init P options) ''Authorization''
        = Some (''Bearer '' @ the (opt_token options))) \<and>
   (\<not> token_truthy (opt_token options) \<longrightarrow>
      init_headers (apiFetch_init P options) ''Authorization''
        = (case opt_headers options of None \<Rightarrow> None | Some h \<Rightarrow> h ''Authorization'')) \<and>
   ((init_headers (apiFetch_init P options) ''Content-Type'' = Some ''application/json'' \<and>
     init_body (apiFetch_init P options) = Some (JSON_stringify P (opt_body options)))
      \<longleftrightarrow> opt_body options \<noteq> JUndefined) \<and>
   (init_body (apiFetch_init P options) \<noteq> None \<longleftrightarrow> opt_body options \<noteq> JUndefined) \<and>
   apiFetch P path options =
     (case fetch P (apiFetch_url P path) (apiFetch_init P options) of
        Inl e \<Rightarrow> Inl e
      | Inr response \<Rightarrow> fst (apiFetch_response P response))"
proof -
  have url: "\<not> startsWith path ''http'' \<Longrightarrow>
      apiFetch_url P path =
        strip_trailing_slash (API_BASE_URL P) @ ''/''
          @ (if startsWith path ''/'' then tl path else path)"
    by (auto simp: apiFetch_url_def startsWith_slash)
  show ?thesis
    using url strip_trailing_slash_other [of base]
    by (simp add: apiFetch_url_def strip_trailing_slash_snoc apiFetch_init_def
        apiFetch_headers_Authorization apiFetch_headers_Content_Type apiFetch_def)
qed

theorem apiFetch_request_witness:
  "startsWith ''https://cdn.test/logo.png'' ''http'' \<and>
   apiFetch_url sample_platform ''https://cdn.test/logo.png'' = ''https://cdn.test/logo.png'' \<and>
   \<not> startsWith ''/api/locals/'' ''http'' \<and>
   apiFetch_url sample_platform ''/api/locals/'' = ''https://api.coffeefy.test/api/locals/'' \<and>
   apiFetch_url sample_platform ''api/locals/'' = ''https://api.coffeefy.test/api/locals/'' \<and>
   (\<nexists>b. ''http://localhost:8000'' = b @ ''/'') \<and>
   strip_trailing_slash ''http://localhost:8000'' = ''http://localhost:8000'' \<and>
   token_truthy (opt_token (no_options\<lparr>opt_body := JArr [], opt_token := Some ''a1''\<rparr>)) \<and>
   init_headers
     (apiFetch_init sample_platform (no_options\<lparr>opt_body := JArr [], opt_token := Some ''a1''\<rparr>))
     ''Authorization'' = Some ''Bearer a1'' \<and>
   init_body
     (apiFetch_init sample_platform (no_options\<lparr>opt_body := JArr [], opt_token := Some ''a1''\<rparr>))
     = Some ''[]'' \<and>
   \<not> token_truthy (opt_token no_options) \<and>
   init_headers (apiFetch_init sample_platform no_options) ''Authorization'' = None \<and>
   init_body (apiFetch_init sample_platform no_options) = None"
  using
    apiFetch_request [of "''https://cdn.test/logo.png''" sample_platform "''http://localhost:8000''"
      "''http://localhost:8000''" "no_options\<lparr>opt_body := JArr [], opt_token := Some ''a1''\<rparr>"]
    apiFetch_request [of "''/api/locals/''" sample_platform "[]" "[]" no_options]
    apiFetch_request [of "''api/locals/''" sample_platform "[]" "[]" no_options]
  by (simp add: sample_simps startsWith_def API_BASE_URL_def token_truthy_def
      strip_trailing_slash_def)

text \<open>
  C2 as stated fails: with a token that is not truthy (the empty string), the header
  \<^verbatim>\<open>Authorization\<close> is still present, and is \<^verbatim>\<open>Bearer\<close>, a space and the token, when the
  caller passes it in \<^verbatim>\<open>options.headers\<close>.
\<close>

theorem apiFetch_keeps_caller_Authorization:
  "\<not> token_truthy
       (opt_token \<lparr>opt_method = None, opt_headers = Some [''Authorization'' \<mapsto> ''Bearer ''],
                   opt_body = JUndefined, opt_token = Some []\<rparr>) \<and>
   init_headers
     (apiFetch_init sample_platform
        \<lparr>opt_method = None, opt_headers = Some [''Authorization'' \<mapsto> ''Bearer ''],
         opt_body = JUndefined, opt_token = Some []\<rparr>)
     ''Authorization''
     = Some (''Bearer ''
             @ the (opt_token \<lparr>opt_method = None,
                                opt_headers = Some [''Authorization'' \<mapsto> ''Bearer ''],
                                opt_body = JUndefined, opt_token = Some []\<rparr>))"
  by (simp add: token_truthy_def apiFetch_init_def apiFetch_headers_def)

subsection \<open>The auth session\<close>

lemma tokens_val_present [simp]: "tokens_val t \<noteq> JNull" "tokens_val t \<noteq> JUndefined"
  by (simp_all add: tokens_val_def)

lemma get_prop_snapshot [simp]:
  "get_prop (snapshot_val t u) ''tokens'' = Inr (tokens_val t)"
  "get_prop (snapshot_val t u) ''user'' = Inr (nullable user_val u)"
  by (simp_all add: snapshot_val_def)

lemma persist_fields:
  "window_defined s \<Longrightarrow>
     localStorage (persist P nextTokens nextUser s) STORAGE_KEY
       = (case nextTokens of None \<Rightarrow> None
          | Some t \<Rightarrow> Some (JSON_stringify P (snapshot_val t nextUser)))"
  "tokens (persist P nextTokens nextUser s) = tokens s"
  "user (persist P nextTokens nextUser s) = user s"
  "window_defined (persist P nextTokens nextUser s) = window_defined s"
  by (simp_all add: persist_def removeItem_def setItem_def split: option.splits)

lemma logout_fields:
  "tokens (logout P s) = JNull"
  "user (logout P s) = JNull"
  "window_defined (logout P s) = window_defined s"
  "window_defined s \<Longrightarrow> localStorage (logout P s) STORAGE_KEY = None"
  by (simp_all add: logout_def router_push_def persist_fields)

lemma loadUserProfile_fields:
  assumes "window_defined s"
    and "localStorage s STORAGE_KEY
           = Some (JSON_stringify P (snapshot_val t (Some \<lparr>username = uname, role = None\<rparr>)))"
    and "user s = user_val \<lparr>username = uname, role = None\<rparr>"
  shows "tokens (snd (loadUserProfile P t uname pr s)) = tokens s"
    and "window_defined (snd (loadUserProfile P t uname pr s))"
    and "\<exists>r. localStorage (snd (loadUserProfile P t uname pr s)) STORAGE_KEY
             = Some (JSON_stringify P (snapshot_val t (Some \<lparr>username = uname, role = r\<rparr>)))
           \<and> user (snd (loadUserProfile P t uname pr s)) = user_val \<lparr>username = uname, role = r\<rparr>"
proof -
  show "tokens (snd (loadUserProfile P t uname pr s)) = tokens s"
    by (simp add: loadUserProfile_def persist_fields Let_def split: sum.splits option.splits)
  show "window_defined (snd (loadUserProfile P t uname pr s))"
    using assms(1)
    by (simp add: loadUserProfile_def persist_fields Let_def split: sum.splits option.splits)
  show "\<exists>r. localStorage (snd (loadUserProfile P t uname pr s)) STORAGE_KEY
             = Some (JSON_stringify P (snapshot_val t (Some \<lparr>username = uname, role = r\<rparr>)))
           \<and> user (snd (loadUserProfile P t uname pr s)) = user_val \<lparr>username = uname, role = r\<rparr>"
  proof (cases pr)
    case (Inl e)
    then show ?thesis using assms by (auto simp: loadUserProfile_def)
  next
    case (Inr data)
    show ?thesis
    proof (cases "find (\<lambda>item. username item = uname) data")
      case None
      then show ?thesis using assms Inr by (auto simp: loadUserProfile_def)
    next
      case (Some found)
      then have "username found = uname"
        by (auto simp: find_Some_iff)
      then show ?thesis
        using assms Inr Some
        by (auto simp: loadUserProfile_def persist_fields Let_def)
    qed
  qed
qed

lemma login_failure_fields:
  "tokens (snd (login P c (Inl e) pr s)) = tokens s"
  "user (snd (login P c (Inl e) pr s)) = user s"
  "localStorage (snd (login P c (Inl e) pr s)) = localStorage s"
  "window_defined (snd (login P c (Inl e) pr s)) = window_defined s"
  "fst (login P c (Inl e) pr s) = Inl e"
  by (simp_all add: login_def login_start_def login_failed_def)

lemma login_success_fields:
  assumes "window_defined s"
  shows "tokens (snd (login P c (Inr t) pr s)) = tokens_val t"
    and "window_defined (snd (login P c (Inr t) pr s))"
    and "\<exists>r. localStorage (snd (login P c (Inr t) pr s)) STORAGE_KEY
             = Some (JSON_stringify P
                 (snapshot_val t (Some \<lparr>username = cred_username c, role = r\<rparr>)))
           \<and> user (snd (login P c (Inr t) pr s))
               = user_val \<lparr>username = cred_username c, role = r\<rparr>"
    and "fst (login P c (Inr t) pr s) = Inr ()"
proof -
  define s2 where "s2 = persist P (Some t) (Some \<lparr>username = cred_username c, role = None\<rparr>)
      (s\<lparr>loading := True, error := None, tokens := tokens_val t,
         user := user_val \<lparr>username = cred_username c, role = None\<rparr>\<rparr>)"
  have w2: "window_defined s2" and t2: "tokens s2 = tokens_val t"
    and u2: "user s2 = user_val \<lparr>username = cred_username c, role = None\<rparr>"
    and l2: "localStorage s2 STORAGE_KEY = Some (JSON_stringify P
                 (snapshot_val t (Some \<lparr>username = cred_username c, role = None\<rparr>)))"
    using assms by (simp_all add: s2_def persist_fields)
  note lp = loadUserProfile_fields [OF w2 l2 u2, of pr]
  have "\<exists>d. snd (login P c (Inr t) pr s)
      = (router_push d (snd (loadUserProfile P t (cred_username c) pr s2)))\<lparr>loading := False\<rparr>"
    by (auto simp add: login_def login_start_def login_got_tokens_def login_got_profile_def
        s2_def Let_def split: prod.splits)
  then obtain d where eq: "snd (login P c (Inr t) pr s)
      = (router_push d (snd (loadUserProfile P t (cred_username c) pr s2)))\<lparr>loading := False\<rparr>"
    by blast
  show "tokens (snd (login P c (Inr t) pr s)) = tokens_val t"
    using lp(1) t2 by (simp add: eq router_push_def)
  show "window_defined (snd (login P c (Inr t) pr s))"
    using lp(2) by (simp add: eq router_push_def)
  show "\<exists>r. localStorage (snd (login P c (Inr t) pr s)) STORAGE_KEY
             = Some (JSON_stringify P
                 (snapshot_val t (Some \<lparr>username = cred_username c, role = r\<rparr>)))
           \<and> user (snd (login P c (Inr t) pr s))
               = user_val \<lparr>username = cred_username c, role = r\<rparr>"
    using lp(3) by (simp add: eq router_push_def)
  show "fst (login P c (Inr t) pr s) = Inr ()"
    by (simp add: login_def login_got_profile_def Let_def split: prod.splits)
qed

lemma login_preserves:
  assumes "window_defined s" and "session_inv s"
  shows "session_inv (snd (login P c tr pr s)) \<and> window_defined (snd (login P c tr pr s))"
proof (cases tr)
  case (Inl e)
  then show ?thesis
    using assms by (simp add: session_inv_def tokens_present_def login_failure_fields)
next
  case (Inr t)
  then show ?thesis
    using login_success_fields [OF assms(1), of P c t pr]
    by (auto simp: session_inv_def tokens_present_def)
qed

lemma register_state:
  "snd (register P p cr tr pr s)
     = (case cr of
          Inl err \<Rightarrow> s\<lparr>loading := False, error := Some (register_error_text P err)\<rparr>
        | Inr _ \<Rightarrow>
            (let s' = snd (login P \<lparr>cred_username = reg_username p, cred_password = reg_password p\<rparr>
                             tr pr (s\<lparr>loading := True, error := None\<rparr>))
             in case tr of
                  Inl err \<Rightarrow> s'\<lparr>error := Some (register_error_text P err), loading := False\<rparr>
                | Inr _ \<Rightarrow> s'\<lparr>loading := False\<rparr>))"
  by (cases tr)
    (auto simp: register_def login_def login_failed_def login_got_profile_def Let_def
      split: sum.splits prod.splits)

lemma register_preserves:
  assumes "window_defined s" and "session_inv s"
  shows "session_inv (snd (register P p cr tr pr s)) \<and> window_defined (snd (register P p cr tr pr s))"
proof -
  have "window_defined (s\<lparr>loading := True, error := None\<rparr>)"
    and "session_inv (s\<lparr>loading := True, error := None\<rparr>)"
    using assms by (simp_all add: session_inv_def tokens_present_def)
  from login_preserves [OF this] show ?thesis
    using assms
    by (auto simp: register_state Let_def session_inv_def tokens_present_def split: sum.splits)
qed

lemma auth_step_preserves:
  assumes "window_defined s" and "session_inv s"
  shows "session_inv (auth_step P s ev) \<and> window_defined (auth_step P s ev)"
proof (cases ev)
  case (Login c tr pr)
  then show ?thesis using login_preserves [OF assms] by simp
next
  case (Register p cr tr pr)
  then show ?thesis using register_preserves [OF assms] by simp
next
  case Logout
  then show ?thesis
    using assms by (simp add: session_inv_def tokens_present_def logout_fields)
qed

lemma auth_run_preserves:
  "window_defined s \<Longrightarrow> session_inv s \<Longrightarrow>
     session_inv (auth_run P s evs) \<and> window_defined (auth_run P s evs)"
  unfolding auth_run_def
  by (induction evs arbitrary: s) (simp_all add: auth_step_preserves)

lemma rehydrate_loading: "window_defined s \<Longrightarrow> loading (rehydrate P s) = False"
  by (simp add: rehydrate_def)

lemma rehydrate_absent:
  "window_defined s \<Longrightarrow> localStorage s STORAGE_KEY = None \<Longrightarrow> rehydrate P s = s\<lparr>loading := False\<rparr>"
  by (simp add: rehydrate_def)

lemma rehydrate_empty:
  "window_defined s \<Longrightarrow> localStorage s STORAGE_KEY = Some [] \<Longrightarrow> rehydrate P s = s\<lparr>loading := False\<rparr>"
  by (simp add: rehydrate_def)

lemma rehydrate_invalid:
  "window_defined s \<Longrightarrow> localStorage s STORAGE_KEY = Some stored \<Longrightarrow> stored \<noteq> [] \<Longrightarrow>
   JSON_parse P stored = None \<Longrightarrow>
   rehydrate P s = (removeItem STORAGE_KEY s)\<lparr>loading := False\<rparr>"
  by (simp add: rehydrate_def)

lemma rehydrate_snapshot:
  "window_defined s \<Longrightarrow> localStorage s STORAGE_KEY = Some stored \<Longrightarrow> stored \<noteq> [] \<Longrightarrow>
   JSON_parse P stored = Some (snapshot_val t u) \<Longrightarrow>
   rehydrate P s = s\<lparr>tokens := tokens_val t, user := nullable user_val u, loading := False\<rparr>"
  by (simp add: rehydrate_def)

lemma mount_fields [simp]:
  "window_defined (mount w storage) = w"
  "localStorage (mount w storage) = storage"
  "tokens (mount w storage) = JNull"
  "user (mount w storage) = JNull"
  by (simp_all add: mount_def)

text \<open>
  C3, as amended. In the browser (where \<^verbatim>\<open>window\<close> is defined): for tokens and a user
  whose snapshot \<^verbatim>\<open>JSON.parse\<close> reads back from the text \<^verbatim>\<open>JSON.stringify\<close> gives (a text
  that is not empty), \<^verbatim>\<open>persist\<close> stores that text under the key, and the effect run at the
  next mount puts exactly those tokens and that user into the state and leaves the entry in
  place. When the stored text is not empty and is not valid JSON, the effect removes the
  entry and leaves tokens and user as they are, \<^verbatim>\<open>null\<close> at mount. When the stored text is
  empty, the effect changes nothing but \<^verbatim>\<open>loading\<close>. In every case the effect ends with
  \<^verbatim>\<open>loading\<close> false.
\<close>

theorem auth_session_roundtrip:
  "window_defined s \<longrightarrow>
   (JSON_stringify P (snapshot_val t (Some u)) \<noteq> [] \<and>
    JSON_parse P (JSON_stringify P (snapshot_val t (Some u))) = Some (snapshot_val t (Some u)) \<longrightarrow>
      localStorage (persist P (Some t) (Some u) s) STORAGE_KEY
        = Some (JSON_stringify P (snapshot_val t (Some u))) \<and>
      tokens (rehydrate P (mount True (localStorage (persist P (Some t) (Some u) s)))) = tokens_val t \<and>
      user (rehydrate P (mount True (localStorage (persist P (Some t) (Some u) s)))) = user_val u \<and>
      localStorage (rehydrate P (mount True (localStorage (persist P (Some t) (Some u) s))))
        = localStorage (persist P (Some t) (Some u) s)) \<and>
   (localStorage s STORAGE_KEY = Some stored \<and> stored \<noteq> [] \<and> JSON_parse P stored = None \<longrightarrow>
      localStorage (rehydrate P s) STORAGE_KEY = None \<and>
      tokens (rehydrate P s) = tokens s \<and>
      user (rehydrate P s) = user s) \<and>
   (storage STORAGE_KEY = Some stored \<and> stored \<noteq> [] \<and> JSON_parse P stored = None \<longrightarrow>
      localStorage (rehydrate P (mount True storage)) STORAGE_KEY = None \<and>
      tokens (rehydrate P (mount True storage)) = JNull \<and>
      user (rehydrate P (mount True storage)) = JNull) \<and>
   (localStorage s STORAGE_KEY = Some [] \<longrightarrow> rehydrate P s = s\<lparr>loading := False\<rparr>) \<and>
   loading (rehydrate P s) = False"
proof (intro impI conjI)
  assume w: "window_defined s"
  show "loading (rehydrate P s) = False"
    using w by (rule rehydrate_loading)
  {
    assume e: "localStorage s STORAGE_KEY = Some []"
    show "rehydrate P s = s\<lparr>loading := False\<rparr>"
      using w e by (rule rehydrate_empty)
  }
  {
    assume a: "localStorage s STORAGE_KEY = Some stored \<and> stored \<noteq> [] \<and> JSON_parse P stored = None"
    then have r: "rehydrate P s = (removeItem STORAGE_KEY s)\<lparr>loading := False\<rparr>"
      using w by (simp add: rehydrate_invalid)
    show "localStorage (rehydrate P s) STORAGE_KEY = None"
      and "tokens (rehydrate P s) = tokens s"
      and "user (rehydrate P s) = user s"
      by (simp_all add: r removeItem_def)
  }
  {
    assume a: "storage STORAGE_KEY = Some stored \<and> stored \<noteq> [] \<and> JSON_parse P stored = None"
    then have r: "rehydrate P (mount True storage)
        = (removeItem STORAGE_KEY (mount True storage))\<lparr>loading := False\<rparr>"
      by (simp add: rehydrate_invalid)
    show "localStorage (rehydrate P (mount True storage)) STORAGE_KEY = None"
      and "tokens (rehydrate P (mount True storage)) = JNull"
      and "user (rehydrate P (mount True storage)) = JNull"
      by (simp_all add: r removeItem_def)
  }
  {
    let ?text = "JSON_stringify P (snapshot_val t (Some u))"
    let ?s = "persist P (Some t) (Some u) s"
    assume a: "?text \<noteq> [] \<and> JSON_parse P ?text = Some (snapshot_val t (Some u))"
    show st: "localStorage ?s STORAGE_KEY = Some ?text"
      using w by (simp add: persist_fields)
    have r: "rehydrate P (mount True (localStorage ?s))
        = (mount True (localStorage ?s))
            \<lparr>tokens := tokens_val t, user := nullable user_val (Some u), loading := False\<rparr>"
      using a st by (simp add: rehydrate_snapshot)
    show "tokens (rehydrate P (mount True (localStorage ?s))) = tokens_val t"
      and "user (rehydrate P (mount True (localStorage ?s))) = user_val u"
      and "localStorage (rehydrate P (mount True (localStorage ?s))) = localStorage ?s"
      by (simp_all add: r nullable_def)
  }
qed

lemmas auth_simps =
  rehydrate_def persist_def mount_def removeItem_def setItem_def STORAGE_KEY_def
  snapshot_val_def tokens_val_def user_val_def nullable_def

theorem auth_session_roundtrip_witness:
  "window_defined (mount True Map.empty) \<and>
   JSON_stringify sample_platform (snapshot_val sample_tokens (Some sample_user)) \<noteq> [] \<and>
   JSON_parse sample_platform
       (JSON_stringify sample_platform (snapshot_val sample_tokens (Some sample_user)))
     = Some (snapshot_val sample_tokens (Some sample_user)) \<and>
   localStorage (persist sample_platform (Some sample_tokens) (Some sample_user)
       (mount True Map.empty)) STORAGE_KEY = Some sample_snapshot_text \<and>
   tokens (rehydrate sample_platform (mount True [STORAGE_KEY \<mapsto> sample_snapshot_text]))
     = tokens_val sample_tokens \<and>
   user (rehydrate sample_platform (mount True [STORAGE_KEY \<mapsto> sample_snapshot_text]))
     = user_val sample_user \<and>
   JSON_parse sample_platform ''{tokens'' = None \<and>
   localStorage (rehydrate sample_platform (mount True [STORAGE_KEY \<mapsto> ''{tokens'']))
       STORAGE_KEY = None \<and>
   tokens (rehydrate sample_platform (mount True [STORAGE_KEY \<mapsto> ''{tokens''])) = JNull \<and>
   loading (rehydrate sample_platform (mount True [STORAGE_KEY \<mapsto> ''{tokens''])) = False"
proof -
  have p: "persist sample_platform (Some sample_tokens) (Some sample_user) (mount True Map.empty)
      = mount True [STORAGE_KEY \<mapsto> sample_snapshot_text]"
    by (simp add: sample_simps auth_simps)
  show ?thesis
    using
      auth_session_roundtrip [of "mount True Map.empty" sample_platform sample_tokens sample_user
        "[]" "Map.empty"]
      auth_session_roundtrip [of "mount True [STORAGE_KEY \<mapsto> ''{tokens'']" sample_platform
        sample_tokens sample_user "''{tokens''" "[STORAGE_KEY \<mapsto> ''{tokens'']"]
    unfolding p
    by (simp add: sample_simps snapshot_val_def tokens_val_def user_val_def nullable_def)
qed

text \<open>
  C3 as stated fails: the empty string is a stored value that is not valid JSON, and the
  effect leaves it in place.
\<close>

theorem rehydrate_keeps_empty_entry:
  "JSON_parse sample_platform [] = None \<and>
   localStorage (rehydrate sample_platform (mount True [STORAGE_KEY \<mapsto> []])) STORAGE_KEY
     = Some []"
  by (simp add: sample_simps rehydrate_def mount_def)

lemma rehydrate_establishes_absent:
  assumes "storage STORAGE_KEY = None"
  shows "tokens (rehydrate P (mount True storage)) = JNull"
    and "user (rehydrate P (mount True storage)) = JNull"
    and "session_inv (rehydrate P (mount True storage))"
    and "window_defined (rehydrate P (mount True storage))"
  using assms by (simp_all add: rehydrate_absent session_inv_def tokens_present_def)

lemma rehydrate_establishes_persisted:
  assumes "storage STORAGE_KEY = Some (JSON_stringify P (snapshot_val t u))"
    and "JSON_stringify P (snapshot_val t u) \<noteq> []"
    and "JSON_parse P (JSON_stringify P (snapshot_val t u)) = Some (snapshot_val t u)"
  shows "tokens (rehydrate P (mount True storage)) = tokens_val t"
    and "session_inv (rehydrate P (mount True storage))"
    and "window_defined (rehydrate P (mount True storage))"
proof -
  have r: "rehydrate P (mount True storage)
      = (mount True storage)\<lparr>tokens := tokens_val t, user := nullable user_val u, loading := False\<rparr>"
    using assms by (simp add: rehydrate_snapshot)
  show "tokens (rehydrate P (mount True storage)) = tokens_val t"
    and "session_inv (rehydrate P (mount True storage))"
    and "window_defined (rehydrate P (mount True storage))"
    using assms(1) by (simp_all add: r session_inv_def tokens_present_def)
qed

lemma rehydrate_window [simp]: "window_defined (rehydrate P s) = window_defined s"
  by (simp add: rehydrate_def removeItem_def Let_def split: option.splits sum.splits)

lemma context_accessToken_logout: "context_accessToken (logout P s) = JNull"
  by (simp add: context_accessToken_def logout_fields)

text \<open>
  C10, as amended. In the browser, with every operation of the provider run to its end
  before the next one starts: an entry is stored under \<^verbatim>\<open>coffeefy-auth\<close> exactly when the
  tokens in memory are not null, and login, registration and logout, in any sequence, keep
  it so. The effect run at mount establishes it, from a storage without an entry (the
  tokens stay null: tokens are only loaded from an existing snapshot) and from a storage
  that holds a snapshot written by \<^verbatim>\<open>persist\<close> (which \<^verbatim>\<open>JSON.parse\<close> reads back), so it
  holds all along such a session. A successful login stores the tokens and persists a
  snapshot of them with the user logged in; \<^verbatim>\<open>persist\<close> called with null tokens removes
  the entry; logout sets tokens and user to null and removes the entry, after which the
  exposed \<^verbatim>\<open>accessToken\<close> is null and a re-hydration restores neither tokens nor user.
\<close>

theorem session_invariant:
  "(window_defined s \<and> session_inv s \<longrightarrow>
      session_inv (auth_run P s evs) \<and> window_defined (auth_run P s evs)) \<and>
   (storage STORAGE_KEY = None \<longrightarrow>
      tokens (rehydrate P (mount True storage)) = JNull \<and>
      session_inv (auth_run P (rehydrate P (mount True storage)) evs)) \<and>
   (storage STORAGE_KEY = Some (JSON_stringify P (snapshot_val t u)) \<and>
    JSON_stringify P (snapshot_val t u) \<noteq> [] \<and>
    JSON_parse P (JSON_stringify P (snapshot_val t u)) = Some (snapshot_val t u) \<longrightarrow>
      tokens (rehydrate P (mount True storage)) = tokens_val t \<and>
      session_inv (auth_run P (rehydrate P (mount True storage)) evs)) \<and>
   (window_defined s \<longrightarrow>
      tokens (snd (login P c (Inr t) pr s)) = tokens_val t \<and>
      (\<exists>r. localStorage (snd (login P c (Inr t) pr s)) STORAGE_KEY
              = Some (JSON_stringify P
                  (snapshot_val t (Some \<lparr>username = cred_username c, role = r\<rparr>))) \<and>
            user (snd (login P c (Inr t) pr s))
              = user_val \<lparr>username = cred_username c, role = r\<rparr>) \<and>
      localStorage (persist P None nextUser s) STORAGE_KEY = None \<and>
      tokens (logout P s) = JNull \<and>
      user (logout P s) = JNull \<and>
      localStorage (logout P s) STORAGE_KEY = None \<and>
      context_accessToken (logout P s) = JNull \<and>
      tokens (rehydrate P (mount True (localStorage (logout P s)))) = JNull \<and>
      user (rehydrate P (mount True (localStorage (logout P s)))) = JNull)"
proof (intro conjI impI)
  {
    assume a: "window_defined s \<and> session_inv s"
    then show "session_inv (auth_run P s evs)" and "window_defined (auth_run P s evs)"
      using auth_run_preserves [of s P evs] by simp_all
  }
  {
    assume a: "storage STORAGE_KEY = None"
    show "tokens (rehydrate P (mount True storage)) = JNull"
      using a by (rule rehydrate_establishes_absent)
    have "session_inv (rehydrate P (mount True storage))"
      and "window_defined (rehydrate P (mount True storage))"
      using a by (simp_all add: rehydrate_establishes_absent)
    then show "session_inv (auth_run P (rehydrate P (mount True storage)) evs)"
      using auth_run_preserves by blast
  }
  {
    assume a: "storage STORAGE_KEY = Some (JSON_stringify P (snapshot_val t u)) \<and>
      JSON_stringify P (snapshot_val t u) \<noteq> [] \<and>
      JSON_parse P (JSON_stringify P (snapshot_val t u)) = Some (snapshot_val t u)"
    show "tokens (rehydrate P (mount True storage)) = tokens_val t"
      using a by (simp add: rehydrate_establishes_persisted)
    have "session_inv (rehydrate P (mount True storage))"
      and "window_defined (rehydrate P (mount True storage))"
      using a by (simp_all add: rehydrate_establishes_persisted)
    then show "session_inv (auth_run P (rehydrate P (mount True storage)) evs)"
      using auth_run_preserves by blast
  }
  {
    assume w: "window_defined s"
    show "tokens (snd (login P c (Inr t) pr s)) = tokens_val t"
      using w by (rule login_success_fields)
    show "\<exists>r. localStorage (snd (login P c (Inr t) pr s)) STORAGE_KEY
              = Some (JSON_stringify P
                  (snapshot_val t (Some \<lparr>username = cred_username c, role = r\<rparr>))) \<and>
            user (snd (login P c (Inr t) pr s))
              = user_val \<lparr>username = cred_username c, role = r\<rparr>"
      using w by (rule login_success_fields)
    show "localStorage (persist P None nextUser s) STORAGE_KEY = None"
      using w by (simp add: persist_fields)
    show "tokens (logout P s) = JNull" and "user (logout P s) = JNull"
      by (simp_all add: logout_fields)
    show l: "localStorage (logout P s) STORAGE_KEY = None"
      using w by (simp add: logout_fields)
    show "context_accessToken (logout P s) = JNull"
      by (rule context_accessToken_logout)
    show "tokens (rehydrate P (mount True (localStorage (logout P s)))) = JNull"
      and "user (rehydrate P (mount True (localStorage (logout P s)))) = JNull"
      using l by (simp_all add: rehydrate_establishes_absent)
  }
qed

theorem session_invariant_witness:
  "window_defined (rehydrate sample_platform (mount True Map.empty)) \<and>
   session_inv (rehydrate sample_platform (mount True Map.empty)) \<and>
   session_inv
     (auth_run sample_platform (rehydrate sample_platform (mount True Map.empty))
        [Login sample_credentials (Inr sample_tokens) (Inr [sample_user]), Logout]) \<and>
   tokens (snd (login sample_platform sample_credentials (Inr sample_tokens) (Inr [sample_user])
                  (mount True Map.empty))) = tokens_val sample_tokens \<and>
   localStorage (snd (login sample_platform sample_credentials (Inr sample_tokens)
                        (Inr [sample_user]) (mount True Map.empty))) STORAGE_KEY
     = Some sample_snapshot_text \<and>
   [STORAGE_KEY \<mapsto> sample_snapshot_text] STORAGE_KEY
     = Some (JSON_stringify sample_platform (snapshot_val sample_tokens (Some sample_user))) \<and>
   JSON_parse sample_platform
       (JSON_stringify sample_platform (snapshot_val sample_tokens (Some sample_user)))
     = Some (snapshot_val sample_tokens (Some sample_user)) \<and>
   tokens (rehydrate sample_platform (mount True [STORAGE_KEY \<mapsto> sample_snapshot_text]))
     = tokens_val sample_tokens \<and>
   session_inv
     (auth_run sample_platform
        (rehydrate sample_platform (mount True [STORAGE_KEY \<mapsto> sample_snapshot_text]))
        [Logout, Login sample_credentials (Inl TypeError) (Inl TypeError)]) \<and>
   context_accessToken (logout sample_platform
        (rehydrate sample_platform (mount True [STORAGE_KEY \<mapsto> sample_snapshot_text]))) = JNull"
proof -
  have l: "localStorage (snd (login sample_platform sample_credentials (Inr sample_tokens)
                        (Inr [sample_user]) (mount True Map.empty))) STORAGE_KEY
     = Some sample_snapshot_text"
    by (simp add: sample_simps sample_credentials_def auth_simps login_def login_start_def
        login_got_tokens_def login_got_profile_def loadUserProfile_def router_push_def)
  have w: "window_defined (rehydrate sample_platform (mount True Map.empty))"
    "window_defined (rehydrate sample_platform (mount True [STORAGE_KEY \<mapsto> sample_snapshot_text]))"
    "window_defined (mount True Map.empty)"
    by simp_all
  have i: "session_inv (rehydrate sample_platform (mount True Map.empty))"
    by (simp add: rehydrate_def mount_def session_inv_def tokens_present_def)
  have s: "[STORAGE_KEY \<mapsto> sample_snapshot_text] STORAGE_KEY
     = Some (JSON_stringify sample_platform (snapshot_val sample_tokens (Some sample_user)))"
    "JSON_stringify sample_platform (snapshot_val sample_tokens (Some sample_user)) \<noteq> []"
    "JSON_parse sample_platform
       (JSON_stringify sample_platform (snapshot_val sample_tokens (Some sample_user)))
     = Some (snapshot_val sample_tokens (Some sample_user))"
    by (simp_all add: sample_simps snapshot_val_def tokens_val_def user_val_def nullable_def)
  show ?thesis
    using
      session_invariant [of "rehydrate sample_platform (mount True Map.empty)" sample_platform
        "[Login sample_credentials (Inr sample_tokens) (Inr [sample_user]), Logout]"
        "Map.empty" sample_tokens None sample_credentials "Inr [sample_user]" None]
      session_invariant [of "mount True Map.empty" sample_platform
        "[Logout, Login sample_credentials (Inl TypeError) (Inl TypeError)]"
        "[STORAGE_KEY \<mapsto> sample_snapshot_text]" sample_tokens "Some sample_user"
        sample_credentials "Inr [sample_user]" None]
      session_invariant [of "rehydrate sample_platform
          (mount True [STORAGE_KEY \<mapsto> sample_snapshot_text])" sample_platform "[]" "Map.empty"
        sample_tokens None sample_credentials "Inr [sample_user]" None]
      l w i s
    by simp
qed

text \<open>
  C10 as stated fails when a logout runs while \<^verbatim>\<open>login\<close> waits for the profile of the
  user: when the answer arrives and holds the user, \<^verbatim>\<open>loadUserProfile\<close> persists the
  snapshot again. The tokens in memory are then null and an entry is stored, and a
  re-hydration restores the session that was logged out.
\<close>

theorem logout_during_login_breaks_invariant:
  "session_inv (rehydrate sample_platform (mount True Map.empty)) \<and>
   tokens (logout_during_login sample_platform sample_credentials sample_tokens
             (Inr [sample_user]) (rehydrate sample_platform (mount True Map.empty))) = JNull \<and>
   context_accessToken
     (logout_during_login sample_platform sample_credentials sample_tokens
        (Inr [sample_user]) (rehydrate sample_platform (mount True Map.empty))) = JNull \<and>
   localStorage (logout_during_login sample_platform sample_credentials sample_tokens
                   (Inr [sample_user]) (rehydrate sample_platform (mount True Map.empty)))
       STORAGE_KEY = Some sample_snapshot_text \<and>
   \<not> session_inv (logout_during_login sample_platform sample_credentials sample_tokens
                    (Inr [sample_user]) (rehydrate sample_platform (mount True Map.empty))) \<and>
   tokens (rehydrate sample_platform (mount True
             (localStorage (logout_during_login sample_platform sample_credentials sample_tokens
                (Inr [sample_user]) (rehydrate sample_platform (mount True Map.empty))))))
     = tokens_val sample_tokens"
proof -
  have s: "logout_during_login sample_platform sample_credentials sample_tokens
             (Inr [sample_user]) (rehydrate sample_platform (mount True Map.empty))
      = \<lparr>loading = False, error = None, tokens = JNull, user = user_val sample_user,
         localStorage = [STORAGE_KEY \<mapsto> sample_snapshot_text], window_defined = True,
         pushed = [''/'', ''/cliente'']\<rparr>"
    by (simp add: sample_simps sample_credentials_def auth_simps logout_during_login_def
        login_start_def login_got_tokens_def login_got_profile_def loadUserProfile_def
        logout_def router_push_def)
  show ?thesis
    unfolding s
    by (simp add: sample_simps auth_simps session_inv_def tokens_present_def
        context_accessToken_def)
qed

subsection \<open>The polling timer\<close>

lemma poll_inv_mount: "poll_inv polling_mount"
  by (simp add: poll_inv_def polling_mount_def no_timers_def)

lemma run_cleanup_clears:
  assumes "poll_inv s"
  shows "scheduled (window_timers (run_cleanup s)) = []"
    and "next_handle (window_timers (run_cleanup s)) = next_handle (window_timers s)"
    and "pollRef (run_cleanup s) = pollRef s"
  using assms
  by (auto simp: poll_inv_def run_cleanup_def poll_cleanup_def clear_poll_def
      window_clearInterval_def split: if_splits)

lemma effect_run_absent:
  assumes "poll_inv s" and "\<not> token_truthy tok"
  shows "poll_inv (effect_run s (tok, f))"
    and "scheduled (window_timers (effect_run s (tok, f))) = []"
    and "\<not> has_cleanup (effect_run s (tok, f))"
proof -
  have e: "effect_run s (tok, f) = (run_cleanup s)\<lparr>has_cleanup := False\<rparr>"
    using assms(2) by (simp add: effect_run_def poll_effect_def)
  show "scheduled (window_timers (effect_run s (tok, f))) = []"
    using run_cleanup_clears [OF assms(1)] by (simp add: e)
  show "\<not> has_cleanup (effect_run s (tok, f))"
    by (simp add: e)
  show "poll_inv (effect_run s (tok, f))"
    using run_cleanup_clears [OF assms(1)] assms(1)
    by (simp add: e poll_inv_def split: option.splits)
qed

lemma effect_run_present:
  assumes "poll_inv s" and "token_truthy tok"
  shows "poll_inv (effect_run s (tok, f))"
    and "\<exists>h. 0 < h \<and> pollRef (effect_run s (tok, f)) = Some h \<and>
           scheduled (window_timers (effect_run s (tok, f))) = [(h, f, REFRESH_INTERVAL_MS)]"
    and "has_cleanup (effect_run s (tok, f))"
proof -
  let ?c = "run_cleanup s"
  have c: "scheduled (window_timers ?c) = []"
    "next_handle (window_timers ?c) = next_handle (window_timers s)"
    "pollRef ?c = pollRef s"
    using run_cleanup_clears [OF assms(1)] by simp_all
  have cc: "scheduled (window_timers (clear_poll ?c)) = []"
    "next_handle (window_timers (clear_poll ?c)) = next_handle (window_timers s)"
    using c by (auto simp: clear_poll_def window_clearInterval_def split: option.splits)
  have e: "effect_run s (tok, f)
      = (clear_poll ?c)
          \<lparr>window_timers := \<lparr>next_handle = Suc (next_handle (window_timers s)),
                              scheduled = [(next_handle (window_timers s), f, REFRESH_INTERVAL_MS)]\<rparr>,
           pollRef := Some (next_handle (window_timers s)),
           has_cleanup := True\<rparr>"
    using assms(2) cc by (simp add: effect_run_def poll_effect_def window_setInterval_def Let_def)
  have pos: "0 < next_handle (window_timers s)"
    using assms(1) by (simp add: poll_inv_def)
  show "poll_inv (effect_run s (tok, f))"
    using pos by (simp add: e poll_inv_def)
  show "\<exists>h. 0 < h \<and> pollRef (effect_run s (tok, f)) = Some h \<and>
           scheduled (window_timers (effect_run s (tok, f))) = [(h, f, REFRESH_INTERVAL_MS)]"
    using pos by (simp add: e)
  show "has_cleanup (effect_run s (tok, f))"
    by (simp add: e)
qed

lemma effect_runs_snoc: "effect_runs (renders @ [d]) = effect_run (effect_runs renders) d"
  by (simp add: effect_runs_def)

lemma poll_inv_effect_runs: "poll_inv (effect_runs renders)"
proof (induction renders rule: rev_induct)
  case Nil
  then show ?case by (simp add: effect_runs_def poll_inv_mount)
next
  case (snoc d renders)
  then show ?case
    using effect_run_absent(1) [of "effect_runs renders" "fst d" "snd d"]
      effect_run_present(1) [of "effect_runs renders" "fst d" "snd d"]
    by (cases "token_truthy (fst d)") (simp_all add: effect_runs_snoc)
qed

lemma unmount_clears: "poll_inv s \<Longrightarrow> scheduled (window_timers (unmount s)) = []"
  by (simp add: unmount_def run_cleanup_clears)

text \<open>
  C5. The effect of the orders operations page schedules \<^verbatim>\<open>fetchData\<close> with the constant
  delay \<^verbatim>\<open>REFRESH_INTERVAL_MS\<close> of 30000 ms. Whatever the sequence of renders that re-run
  the effect: after a run with an access token (a truthy one), exactly one interval is
  scheduled, it is the one whose handle \<^verbatim>\<open>pollRef\<close> holds, it calls the \<^verbatim>\<open>fetchData\<close> of
  that run and its delay is 30000, so every interval scheduled earlier has been replaced;
  after a run without an access token, and before the first run, no interval is scheduled;
  and after the cleanup at unmount no interval is scheduled. A run without an access token
  schedules nothing by itself either, from any state.
\<close>

theorem polling_timer:
  "REFRESH_INTERVAL_MS = 30000 \<and>
   (renders \<noteq> [] \<and> token_truthy (fst (last renders)) \<longrightarrow>
      (\<exists>h. 0 < h \<and> pollRef (effect_runs renders) = Some h \<and>
            scheduled (window_timers (effect_runs renders))
              = [(h, snd (last renders), REFRESH_INTERVAL_MS)])) \<and>
   (renders = [] \<or> \<not> token_truthy (fst (last renders)) \<longrightarrow>
      scheduled (window_timers (effect_runs renders)) = []) \<and>
   scheduled (window_timers (unmount (effect_runs renders))) = [] \<and>
   (\<not> token_truthy accessToken \<longrightarrow>
      window_timers (poll_effect accessToken fetchData s) = window_timers s)"
proof (intro conjI impI)
  show "REFRESH_INTERVAL_MS = 30000"
    by (simp add: REFRESH_INTERVAL_MS_def)
  show "scheduled (window_timers (unmount (effect_runs renders))) = []"
    using poll_inv_effect_runs by (rule unmount_clears)
  {
    assume "\<not> token_truthy accessToken"
    then show "window_timers (poll_effect accessToken fetchData s) = window_timers s"
      by (simp add: poll_effect_def)
  }
  {
    assume a: "renders \<noteq> [] \<and> token_truthy (fst (last renders))"
    then obtain ds d where r: "renders = ds @ [d]"
      by (metis append_butlast_last_id)
    with a have "token_truthy (fst d)" by simp
    from effect_run_present(2) [OF poll_inv_effect_runs this, of ds "snd d"]
    show "\<exists>h. 0 < h \<and> pollRef (effect_runs renders) = Some h \<and>
            scheduled (window_timers (effect_runs renders))
              = [(h, snd (last renders), REFRESH_INTERVAL_MS)]"
      by (simp add: r effect_runs_snoc)
  }
  {
    assume a: "renders = [] \<or> \<not> token_truthy (fst (last renders))"
    show "scheduled (window_timers (effect_runs renders)) = []"
    proof (cases "renders = []")
      case True
      then show ?thesis
        by (simp add: effect_runs_def polling_mount_def no_timers_def)
    next
      case False
      then obtain ds d where r: "renders = ds @ [d]"
        by (metis append_butlast_last_id)
      with a False have "\<not> token_truthy (fst d)" by simp
      from effect_run_absent(2) [OF poll_inv_effect_runs this, of ds "snd d"]
      show ?thesis
        by (simp add: r effect_runs_snoc)
    qed
  }
qed

lemmas polling_simps =
  effect_runs_def effect_run_def run_cleanup_def poll_cleanup_def poll_effect_def clear_poll_def
  window_setInterval_def window_clearInterval_def polling_mount_def no_timers_def unmount_def
  token_truthy_def REFRESH_INTERVAL_MS_def

theorem polling_timer_witness:
  "[(Some ''a1'', ''fetchData 1''), (None, ''fetchData 2''), (Some ''a2'', ''fetchData 3''),
    (Some ''a2'', ''fetchData 4'')] \<noteq> [] \<and>
   token_truthy (fst (last
     [(Some ''a1'', ''fetchData 1''), (None, ''fetchData 2''), (Some ''a2'', ''fetchData 3''),
      (Some ''a2'', ''fetchData 4'')])) \<and>
   scheduled (window_timers (effect_runs
     [(Some ''a1'', ''fetchData 1''), (None, ''fetchData 2''), (Some ''a2'', ''fetchData 3''),
      (Some ''a2'', ''fetchData 4'')]))
     = [(3, ''fetchData 4'', 30000)] \<and>
   \<not> token_truthy (fst (last [(Some ''a1'', ''fetchData 1''), (None, ''fetchData 2'')])) \<and>
   scheduled (window_timers (effect_runs
     [(Some ''a1'', ''fetchData 1''), (None, ''fetchData 2'')])) = [] \<and>
   \<not> token_truthy (Some []) \<and>
   window_timers (poll_effect (Some []) ''fetchData 5''
       (effect_runs [(Some ''a1'', ''fetchData 1'')]))
     = \<lparr>next_handle = 2, scheduled = [(1, ''fetchData 1'', 30000)]\<rparr>"
proof -
  have r4: "effect_runs
     [(Some ''a1'', ''fetchData 1''), (None, ''fetchData 2''), (Some ''a2'', ''fetchData 3''),
      (Some ''a2'', ''fetchData 4'')]
     = \<lparr>window_timers = \<lparr>next_handle = 4, scheduled = [(3, ''fetchData 4'', 30000)]\<rparr>,
        pollRef = Some 3, has_cleanup = True\<rparr>"
    by (simp add: polling_simps)
  have r1: "effect_runs [(Some ''a1'', ''fetchData 1'')]
     = \<lparr>window_timers = \<lparr>next_handle = 2, scheduled = [(1, ''fetchData 1'', 30000)]\<rparr>,
        pollRef = Some 1, has_cleanup = True\<rparr>"
    by (simp add: polling_simps)
  have t: "token_truthy (Some ''a2'')" "\<not> token_truthy None" "\<not> token_truthy (Some [])"
    by (simp_all add: token_truthy_def)
  show ?thesis
    using
      polling_timer [of "[(Some ''a1'', ''fetchData 1''), (None, ''fetchData 2''),
        (Some ''a2'', ''fetchData 3''), (Some ''a2'', ''fetchData 4'')]" "Some []" "''fetchData 5''"
        "effect_runs [(Some ''a1'', ''fetchData 1'')]"]
      polling_timer [of "[(Some ''a1'', ''fetchData 1''), (None, ''fetchData 2'')]" None
        "''fetchData 5''" polling_mount]
      t
    by (simp add: r4 r1)
qed

subsection \<open>The list of coffee shops\<close>

lemma mset_insert_by: "mset (insert_by cmp x xs) = add_mset x (mset xs)"
  by (induction xs) simp_all

lemma mset_Array_sort: "mset (Array_sort cmp xs) = mset xs"
  by (induction xs) (simp_all add: Array_sort_def mset_insert_by)

lemma set_insert_by: "set (insert_by cmp x xs) = insert x (set xs)"
  by (induction xs) auto

lemma sorted_insert_by:
  assumes "consistent cmp" and "sorted_wrt (\<lambda>a b. cmp a b \<le> 0) xs"
  shows "sorted_wrt (\<lambda>a b. cmp a b \<le> 0) (insert_by cmp x xs)"
  using assms(2)
proof (induction xs)
  case Nil
  then show ?case by simp
next
  case (Cons y ys)
  have total: "\<And>a b. cmp a b \<le> 0 \<or> cmp b a \<le> 0"
    and trans: "\<And>a b c. cmp a b \<le> 0 \<Longrightarrow> cmp b c \<le> 0 \<Longrightarrow> cmp a c \<le> 0"
    using assms(1) unfolding consistent_def by blast+
  show ?case
  proof (cases "cmp x y \<le> 0")
    case True
    then have "\<forall>z\<in>set ys. cmp x z \<le> 0"
      using Cons.prems trans by auto
    with True Cons.prems show ?thesis by simp
  next
    case False
    then have "cmp y x \<le> 0"
      using total by blast
    with False Cons show ?thesis
      by (auto simp: set_insert_by)
  qed
qed

lemma sorted_Array_sort:
  "consistent cmp \<Longrightarrow> sorted_wrt (\<lambda>a b. cmp a b \<le> 0) (Array_sort cmp xs)"
proof (induction xs)
  case Nil
  then show ?case by (simp add: Array_sort_def)
next
  case (Cons x xs)
  then have "sorted_wrt (\<lambda>a b. cmp a b \<le> 0) (insert_by cmp x (Array_sort cmp xs))"
    by (simp add: sorted_insert_by)
  then show ?case by (simp add: Array_sort_def)
qed

lemma consistent_by_name: "consistent localeCompare \<Longrightarrow> consistent (by_name localeCompare)"
  unfolding consistent_def by_name_def by blast

lemma consistent_sample_compare: "consistent sample_compare"
  unfolding consistent_def sample_compare_def by auto

text \<open>
  C7. For a comparison \<^verbatim>\<open>localeCompare\<close> that is consistent, and every answer of
  \<^verbatim>\<open>/api/locals/\<close>: the list the wallet displays holds exactly the locals of the answer
  whose type is \<^verbatim>\<open>cafeteria\<close> or \<^verbatim>\<open>hibrido\<close>, each as often as the answer holds it, and no
  other; and it is sorted ascending by name under \<^verbatim>\<open>localeCompare\<close>. When the request
  fails the list is left as it was.
\<close>

theorem fetchLocals_filtered_sorted:
  assumes "consistent localeCompare"
  shows "mset (locals (fetchLocals localeCompare (Inr response) s))
           = mset (filter (\<lambda>l. lc_type l = ''cafeteria'' \<or> lc_type l = ''hibrido'') response) \<and>
         (l \<in> set (locals (fetchLocals localeCompare (Inr response) s))
            \<longleftrightarrow> l \<in> set response \<and> (lc_type l = ''cafeteria'' \<or> lc_type l = ''hibrido'')) \<and>
         sorted_wrt (\<lambda>a b. localeCompare (lc_name a) (lc_name b) \<le> 0)
           (locals (fetchLocals localeCompare (Inr response) s)) \<and>
         locals (fetchLocals localeCompare (Inl err) s) = locals s"
proof -
  let ?shown = "Array_sort (by_name localeCompare) (filter shown_type response)"
  have l: "locals (fetchLocals localeCompare (Inr response) s) = ?shown"
    by (simp add: fetchLocals_def)
  have f: "shown_type = (\<lambda>l. lc_type l = ''cafeteria'' \<or> lc_type l = ''hibrido'')"
    by (auto simp: shown_type_def)
  have m: "mset ?shown = mset (filter shown_type response)"
    by (rule mset_Array_sort)
  from m have "set ?shown = set (filter shown_type response)"
    by (rule mset_eq_setD)
  then have e: "l \<in> set ?shown \<longleftrightarrow> l \<in> set response \<and> shown_type l"
    by simp
  have "sorted_wrt (\<lambda>a b. by_name localeCompare a b \<le> 0) ?shown"
    using assms by (simp add: sorted_Array_sort consistent_by_name)
  then have srt: "sorted_wrt (\<lambda>a b. localeCompare (lc_name a) (lc_name b) \<le> 0) ?shown"
    by (simp add: by_name_def)
  have err: "locals (fetchLocals localeCompare (Inl err) s) = locals s"
    by (simp add: fetchLocals_def)
  show ?thesis
    using m e srt err unfolding l f by simp
qed

theorem fetchLocals_filtered_sorted_witness:
  "consistent sample_compare \<and>
   locals (fetchLocals sample_compare
     (Inr [sample_local 1 ''Tostadores'' ''tostaduria'', sample_local 2 ''Molino'' ''hibrido'',
           sample_local 3 ''Aroma'' ''cafeteria'', sample_local 4 ''Brasa'' ''cafeteria''])
     no_locals)
     = [sample_local 3 ''Aroma'' ''cafeteria'', sample_local 4 ''Brasa'' ''cafeteria'',
        sample_local 2 ''Molino'' ''hibrido''] \<and>
   sorted_wrt (\<lambda>a b. sample_compare (lc_name a) (lc_name b) \<le> 0)
     (locals (fetchLocals sample_compare
       (Inr [sample_local 1 ''Tostadores'' ''tostaduria'', sample_local 2 ''Molino'' ''hibrido'',
             sample_local 3 ''Aroma'' ''cafeteria'', sample_local 4 ''Brasa'' ''cafeteria''])
       no_locals)) \<and>
   sample_local 1 ''Tostadores'' ''tostaduria''
     \<notin> set (locals (fetchLocals sample_compare
       (Inr [sample_local 1 ''Tostadores'' ''tostaduria'', sample_local 2 ''Molino'' ''hibrido'',
             sample_local 3 ''Aroma'' ''cafeteria'', sample_local 4 ''Brasa'' ''cafeteria''])
       no_locals))"
proof -
  have v: "locals (fetchLocals sample_compare
     (Inr [sample_local 1 ''Tostadores'' ''tostaduria'', sample_local 2 ''Molino'' ''hibrido'',
           sample_local 3 ''Aroma'' ''cafeteria'', sample_local 4 ''Brasa'' ''cafeteria''])
     no_locals)
     = [sample_local 3 ''Aroma'' ''cafeteria'', sample_local 4 ''Brasa'' ''cafeteria'',
        sample_local 2 ''Molino'' ''hibrido'']"
    by (simp add: fetchLocals_def Array_sort_def shown_type_def by_name_def sample_compare_def
        sample_local_def no_locals_def)
  show ?thesis
    using
      fetchLocals_filtered_sorted [OF consistent_sample_compare,
        where l = "sample_local 1 ''Tostadores'' ''tostaduria''"
        and response = "[sample_local 1 ''Tostadores'' ''tostaduria'',
          sample_local 2 ''Molino'' ''hibrido'', sample_local 3 ''Aroma'' ''cafeteria'',
          sample_local 4 ''Brasa'' ''cafeteria'']"
        and s = no_locals and err = TypeError]
      consistent_sample_compare v
    by (simp add: sample_local_def)
qed

subsection \<open>The loyalty dashboard\<close>

text \<open>
  C6. For every summary the dashboard has fetched, the rows of the panel of top customers
  are the elements of \<^verbatim>\<open>summary.top_customers\<close>, one row for each, in the order received,
  each showing the name and the points of its customer; likewise the rows of the panel of
  top rewards and \<^verbatim>\<open>summary.top_rewards\<close>. The summary is stored as received. Nothing is
  sorted, ranked or cut.
\<close>

theorem loyalty_panels_as_received:
  "panel_rows (top_customers_panel formatNumber (Some summary))
     = map (customer_row formatNumber) (top_customers summary) \<and>
   map row_text (panel_rows (top_customers_panel formatNumber (Some summary)))
     = map user_name (top_customers summary) \<and>
   map row_figure (panel_rows (top_customers_panel formatNumber (Some summary)))
     = map (\<lambda>c. formatNumber (total_points c) @ '' pts'') (top_customers summary) \<and>
   panel_rows (top_rewards_panel formatNumber (Some summary))
     = map (reward_row formatNumber) (top_rewards summary) \<and>
   map row_figure (panel_rows (top_rewards_panel formatNumber (Some summary)))
     = map (\<lambda>r. formatNumber (redemptions r) @ '' canjes'') (top_rewards summary) \<and>
   length (panel_rows (top_customers_panel formatNumber (Some summary)))
     = length (top_customers summary) \<and>
   length (panel_rows (top_rewards_panel formatNumber (Some summary)))
     = length (top_rewards summary) \<and>
   (token_truthy accessToken \<longrightarrow>
      lp_summary (loyalty_fetchData accessToken initial
                    (Inr (summary, balancesResponse, rewardsResponse, redemptionsResponse)) s)
        = Some summary \<and>
      panel_rows (top_customers_panel formatNumber
          (lp_summary (loyalty_fetchData accessToken initial
             (Inr (summary, balancesResponse, rewardsResponse, redemptionsResponse)) s)))
        = map (customer_row formatNumber) (top_customers summary) \<and>
      panel_rows (top_rewards_panel formatNumber
          (lp_summary (loyalty_fetchData accessToken initial
             (Inr (summary, balancesResponse, rewardsResponse, redemptionsResponse)) s)))
        = map (reward_row formatNumber) (top_rewards summary))"
proof -
  have c: "panel_rows (top_customers_panel formatNumber (Some summary))
      = map (customer_row formatNumber) (top_customers summary)"
    by (simp add: top_customers_panel_def)
  have r: "panel_rows (top_rewards_panel formatNumber (Some summary))
      = map (reward_row formatNumber) (top_rewards summary)"
    by (simp add: top_rewards_panel_def)
  have f: "token_truthy accessToken \<Longrightarrow>
      lp_summary (loyalty_fetchData accessToken initial
                    (Inr (summary, balancesResponse, rewardsResponse, redemptionsResponse)) s)
        = Some summary"
    by (simp add: loyalty_fetchData_def Let_def)
  show ?thesis
    unfolding c r using f
    by (simp add: c r customer_row_def reward_row_def comp_def)
qed

theorem loyalty_panels_as_received_witness:
  "token_truthy (Some ''a1'') \<and>
   map row_text (panel_rows (top_customers_panel sample_format
       (lp_summary (loyalty_fetchData (Some ''a1'') True
          (Inr (sample_summary, [], [], []))
          \<lparr>lp_summary = None, lp_balances = [] :: unit list, lp_rewards = [] :: unit list,
           lp_redemptions = [] :: unit list, lp_loading = True, lp_refreshing = False,
           lp_error = None\<rparr>))))
     = [''zoe'', ''ana''] \<and>
   map row_figure (panel_rows (top_customers_panel sample_format (Some sample_summary)))
     = [''35 pts'', ''1.200 pts''] \<and>
   map row_text (panel_rows (top_rewards_panel sample_format (Some sample_summary)))
     = [''Latte'', ''Recompensa sin nombre'']"
  using
    loyalty_panels_as_received [of sample_format sample_summary "Some ''a1''" True "[]" "[]" "[]"
      "\<lparr>lp_summary = None, lp_balances = [] :: unit list, lp_rewards = [] :: unit list,
        lp_redemptions = [] :: unit list, lp_loading = True, lp_refreshing = False,
        lp_error = None\<rparr>"]
  by (simp add: sample_summary_def sample_format_def token_truthy_def reward_row_def
      customer_row_def)

subsection \<open>Stock state\<close>

lemma StockState_UNIV: "(UNIV :: StockState set) = {available, normal, low, critical, out}"
proof -
  have "st \<in> {available, normal, low, critical, out}" for st
    by (cases st) simp_all
  then show ?thesis by blast
qed

text \<open>
  C8, as amended. In the product console the stock state of a product takes exactly the
  five values \<^verbatim>\<open>available\<close>, \<^verbatim>\<open>normal\<close>, \<^verbatim>\<open>low\<close>, \<^verbatim>\<open>critical\<close> and \<^verbatim>\<open>out\<close>, and the
  table of labels (like the table of badge styles) gives each of them its fixed text. For
  a product that tracks stock, the stock column shows the label and the badge style that
  the tables give for the \<^verbatim>\<open>stock_state\<close> the server sent. For a product that does not
  track stock, the column shows \<^verbatim>\<open>Disponible\<close> or \<^verbatim>\<open>Sin stock\<close>, and one of two badge
  styles, after \<^verbatim>\<open>in_stock\<close> alone, whatever its \<^verbatim>\<open>stock_state\<close>. In the wallet the
  \<^verbatim>\<open>stock_state\<close> is any string, goes through no table, and the out-of-stock notice is
  shown exactly when \<^verbatim>\<open>in_stock\<close> is false or \<^verbatim>\<open>stock_state\<close> is \<^verbatim>\<open>out\<close>. In no case does
  the label, the badge style, the list of critical products of the console or the notice
  of the wallet depend on the stock quantity or on the low and critical thresholds.
\<close>

theorem stock_state_only_displayed:
  "(UNIV :: StockState set) = {available, normal, low, critical, out} \<and>
   STOCK_STATE_LABELS available = ''Disponible'' \<and>
   STOCK_STATE_LABELS normal = ''Stock saludable'' \<and>
   STOCK_STATE_LABELS low = ''Stock bajo'' \<and>
   STOCK_STATE_LABELS critical = ''Stock cr'' @ i_acute @ ''tico'' \<and>
   STOCK_STATE_LABELS out = ''Sin stock'' \<and>
   (pr_tracks_stock product \<longrightarrow>
      shown_label (stock_column_cell updatingProductId product)
        = STOCK_STATE_LABELS (pr_stock_state product) \<and>
      shown_badge_class (stock_column_cell updatingProductId product)
        = STOCK_BADGE_CLASSES (pr_stock_state product)) \<and>
   (\<not> pr_tracks_stock product \<longrightarrow>
      shown_label (stock_column_cell updatingProductId product)
        = (if pr_in_stock product then ''Disponible'' else ''Sin stock'') \<and>
      shown_badge_class (stock_column_cell updatingProductId product)
        = (if pr_in_stock product then ''bg-(--surface-alt) text-(--muted-foreground)''
           else ''bg-red-100 text-red-700'')) \<and>
   shown_label (stock_column_cell updatingProductId
       (product\<lparr>pr_stock := quantity, pr_low_stock_threshold := low_threshold,
                pr_critical_stock_threshold := critical_threshold\<rparr>))
     = shown_label (stock_column_cell updatingProductId product) \<and>
   shown_badge_class (stock_column_cell updatingProductId
       (product\<lparr>pr_stock := quantity, pr_low_stock_threshold := low_threshold,
                pr_critical_stock_threshold := critical_threshold\<rparr>))
     = shown_badge_class (stock_column_cell updatingProductId product) \<and>
   map pr_id (criticalProducts
       (map (\<lambda>p. p\<lparr>pr_stock := quantity, pr_low_stock_threshold := low_threshold,
                     pr_critical_stock_threshold := critical_threshold\<rparr>) visibleProducts))
     = map pr_id (criticalProducts visibleProducts) \<and>
   (out_of_stock_notice a \<noteq> None \<longleftrightarrow> \<not> cp_in_stock a \<or> cp_stock_state a = ''out'') \<and>
   (cp_in_stock a = cp_in_stock b \<and> cp_stock_state a = cp_stock_state b \<longrightarrow>
      out_of_stock_notice a = out_of_stock_notice b)"
proof -
  have crit: "map pr_id (criticalProducts
       (map (\<lambda>p. p\<lparr>pr_stock := quantity, pr_low_stock_threshold := low_threshold,
                     pr_critical_stock_threshold := critical_threshold\<rparr>) visibleProducts))
     = map pr_id (criticalProducts visibleProducts)"
    by (induction visibleProducts) (simp_all add: criticalProducts_def)
  show ?thesis
    using crit
    by (simp add: StockState_UNIV stock_column_cell_def out_of_stock_notice_def Let_def
        surface_alt_def)
qed

theorem stock_state_only_displayed_witness:
  "pr_tracks_stock (sample_product 5 True 0 True low) \<and>
   shown_label (stock_column_cell None (sample_product 5 True 0 True low)) = ''Stock bajo'' \<and>
   shown_label (stock_column_cell None (sample_product 5 True 500 True low)) = ''Stock bajo'' \<and>
   shown_badge_class (stock_column_cell None (sample_product 5 True 500 True low))
     = ''bg-yellow-100 text-yellow-800'' \<and>
   \<not> pr_tracks_stock (sample_product 6 False 0 False out) \<and>
   shown_label (stock_column_cell None (sample_product 6 False 0 False out)) = ''Sin stock'' \<and>
   shown_badge_class (stock_column_cell None (sample_product 6 False 0 False out))
     = ''bg-red-100 text-red-700'' \<and>
   cp_in_stock (sample_catalog_product 1 None ''Granos'')
     = cp_in_stock (sample_catalog_product 2 (Some 4) ''Filtros'') \<and>
   cp_stock_state (sample_catalog_product 1 None ''Granos'')
     = cp_stock_state (sample_catalog_product 2 (Some 4) ''Filtros'') \<and>
   out_of_stock_notice (sample_catalog_product 1 None ''Granos'')
     = out_of_stock_notice (sample_catalog_product 2 (Some 4) ''Filtros'')"
  using
    stock_state_only_displayed [where product = "sample_product 5 True 0 True low"
      and updatingProductId = None and quantity = 500 and low_threshold = 10
      and critical_threshold = 3 and visibleProducts = "[]"
      and a = "sample_catalog_product 1 None ''Granos''"
      and b = "sample_catalog_product 2 (Some 4) ''Filtros''"]
    stock_state_only_displayed [where product = "sample_product 6 False 0 False out"
      and updatingProductId = None and quantity = 0 and low_threshold = 10
      and critical_threshold = 3 and visibleProducts = "[]"
      and a = "sample_catalog_product 1 None ''Granos''"
      and b = "sample_catalog_product 2 (Some 4) ''Filtros''"]
  by (simp add: sample_product_def sample_catalog_product_def)

text \<open>
  C8 as stated fails for a product that does not track stock: its \<^verbatim>\<open>stock_state\<close> does not
  go through the tables. With the state \<^verbatim>\<open>critical\<close> and \<^verbatim>\<open>in_stock\<close> true the column
  shows \<^verbatim>\<open>Disponible\<close>, not the label of the table; with the state \<^verbatim>\<open>out\<close> and
  \<^verbatim>\<open>in_stock\<close> false the badge has the style \<^verbatim>\<open>bg-red-100 text-red-700\<close>, not the style
  of the table.
\<close>

theorem untracked_stock_not_from_tables:
  "\<not> pr_tracks_stock (sample_product 5 False 0 True critical) \<and>
   shown_label (stock_column_cell None (sample_product 5 False 0 True critical))
     = ''Disponible'' \<and>
   STOCK_STATE_LABELS (pr_stock_state (sample_product 5 False 0 True critical))
     = ''Stock cr'' @ i_acute @ ''tico'' \<and>
   shown_label (stock_column_cell None (sample_product 5 False 0 True critical))
     \<noteq> STOCK_STATE_LABELS (pr_stock_state (sample_product 5 False 0 True critical)) \<and>
   \<not> pr_tracks_stock (sample_product 6 False 0 False out) \<and>
   shown_badge_class (stock_column_cell None (sample_product 6 False 0 False out))
     = ''bg-red-100 text-red-700'' \<and>
   STOCK_BADGE_CLASSES (pr_stock_state (sample_product 6 False 0 False out))
     = ''bg-red-200 text-red-800'' \<and>
   shown_badge_class (stock_column_cell None (sample_product 6 False 0 False out))
     \<noteq> STOCK_BADGE_CLASSES (pr_stock_state (sample_product 6 False 0 False out))"
  by (simp add: sample_product_def stock_column_cell_def i_acute_def)

subsection \<open>Grouping the catalog by category\<close>

lemma first_occurrences_snoc:
  "first_occurrences (ks @ [k])
     = (if k \<in> set (first_occurrences ks) then first_occurrences ks
        else first_occurrences ks @ [k])"
  by (simp add: first_occurrences_def)

lemma set_first_occurrences: "set (first_occurrences ks) = set ks"
  by (induction ks rule: rev_induct) (auto simp: first_occurrences_snoc first_occurrences_def)

lemma distinct_first_occurrences: "distinct (first_occurrences ks)"
  by (induction ks rule: rev_induct) (auto simp: first_occurrences_snoc first_occurrences_def)

lemma find_append_cases:
  "find P (xs @ ys) = (case find P xs of None \<Rightarrow> find P ys | Some x \<Rightarrow> Some x)"
  by (induction xs) simp_all

lemma find_None_filter: "find P xs = None \<Longrightarrow> filter P xs = []"
  by (induction xs) (auto split: if_splits)

lemma find_key_None: "find (\<lambda>p. f p = k) xs = None \<longleftrightarrow> k \<notin> set (map f xs)"
  by (induction xs) auto

lemma group_for_snoc_other:
  "product_mapKey p \<noteq> k \<Longrightarrow> group_for (prior @ [p]) k = group_for prior k"
  by (auto simp: group_for_def find_append_cases split: option.splits)

lemma group_for_snoc_seen:
  assumes "product_mapKey p \<in> set (map product_mapKey prior)"
  shows "group_for (prior @ [p]) (product_mapKey p)
           = (group_for prior (product_mapKey p))
               \<lparr>items := items (group_for prior (product_mapKey p)) @ [p]\<rparr>"
proof -
  obtain q where "find (\<lambda>x. product_mapKey x = product_mapKey p) prior = Some q"
    using assms find_key_None [of product_mapKey "product_mapKey p" prior] by fastforce
  then show ?thesis
    by (simp add: group_for_def find_append_cases)
qed

lemma group_for_snoc_new:
  assumes "product_mapKey p \<notin> set (map product_mapKey prior)"
  shows "group_for (prior @ [p]) (product_mapKey p) = (new_group p)\<lparr>items := [p]\<rparr>"
proof -
  have n: "find (\<lambda>x. product_mapKey x = product_mapKey p) prior = None"
    using assms find_key_None [of product_mapKey "product_mapKey p" prior] by simp
  then show ?thesis
    by (simp add: group_for_def find_append_cases find_None_filter)
qed

text \<open>
  How the two variables of the loop stand after the products \<open>prior\<close>: the groups are those
  of \<open>grouped_by_key\<close>, and the map sends each key seen to the position of its group.
\<close>

lemma group_step_refines:
  assumes gs: "groups g = grouped_by_key prior"
    and ix: "\<And>k i. indexByCategory g k = Some i \<longleftrightarrow>
               i < length (first_occurrences (map product_mapKey prior)) \<and>
               first_occurrences (map product_mapKey prior) ! i = k"
  shows "\<exists>g'. group_step g p = Inr g' \<and> groups g' = grouped_by_key (prior @ [p]) \<and>
           (\<forall>k i. indexByCategory g' k = Some i \<longleftrightarrow>
               i < length (first_occurrences (map product_mapKey (prior @ [p]))) \<and>
               first_occurrences (map product_mapKey (prior @ [p])) ! i = k)"
proof -
  let ?keys = "first_occurrences (map product_mapKey prior)"
  let ?k = "product_mapKey p"
  have dk: "distinct ?keys" by (rule distinct_first_occurrences)
  have sk: "set ?keys = set (map product_mapKey prior)" by (rule set_first_occurrences)
  have len: "length (groups g) = length ?keys"
    by (simp add: gs grouped_by_key_def)
  show ?thesis
  proof (cases "?k \<in> set ?keys")
    case True
    then obtain i where i: "i < length ?keys" "?keys ! i = ?k"
      by (auto simp: in_set_conv_nth)
    then have look: "indexByCategory g ?k = Some i"
      using ix by blast
    have keys': "first_occurrences (map product_mapKey (prior @ [p])) = ?keys"
      using True by (simp add: first_occurrences_snoc)
    have seen: "?k \<in> set (map product_mapKey prior)"
      using True sk by blast
    have upd: "(groups g)[i := (groups g ! i)\<lparr>items := items (groups g ! i) @ [p]\<rparr>]
        = grouped_by_key (prior @ [p])"
    proof (rule nth_equalityI)
      show "length ((groups g)[i := (groups g ! i)\<lparr>items := items (groups g ! i) @ [p]\<rparr>])
          = length (grouped_by_key (prior @ [p]))"
        by (simp add: len grouped_by_key_def keys' del: map_append)
    next
      fix j
      assume "j < length ((groups g)[i := (groups g ! i)\<lparr>items := items (groups g ! i) @ [p]\<rparr>])"
      then have j: "j < length ?keys" by (simp add: len)
      show "(groups g)[i := (groups g ! i)\<lparr>items := items (groups g ! i) @ [p]\<rparr>] ! j
          = grouped_by_key (prior @ [p]) ! j"
      proof (cases "j = i")
        case True
        then show ?thesis
          using i j len group_for_snoc_seen [OF seen]
          by (simp add: gs grouped_by_key_def keys' del: map_append)
      next
        case False
        then have "?keys ! j \<noteq> ?k"
          using dk i j nth_eq_iff_index_eq [of ?keys j i] by auto
        then have "group_for (prior @ [p]) (?keys ! j) = group_for prior (?keys ! j)"
          using group_for_snoc_other [of p "?keys ! j" prior] by simp
        then show ?thesis
          using False j len
          by (simp add: gs grouped_by_key_def keys' del: map_append)
      qed
    qed
    have step: "group_step g p
        = Inr (g\<lparr>groups := (groups g)[i := (groups g ! i)\<lparr>items := items (groups g ! i) @ [p]\<rparr>]\<rparr>)"
      using look i len by (simp add: group_step_def push_item_def)
    show ?thesis
      using ix by (simp add: step upd keys' del: map_append)
  next
    case False
    then have look: "indexByCategory g ?k = None"
      using ix [of ?k] by (metis nth_mem option.exhaust)
    have keys': "first_occurrences (map product_mapKey (prior @ [p])) = ?keys @ [?k]"
      using False by (simp add: first_occurrences_snoc)
    have new: "?k \<notin> set (map product_mapKey prior)"
      using False sk by blast
    have old: "map (group_for (prior @ [p])) ?keys = map (group_for prior) ?keys"
    proof (rule map_cong [OF refl])
      fix k assume "k \<in> set ?keys"
      then have "?k \<noteq> k" using False by blast
      then show "group_for (prior @ [p]) k = group_for prior k"
        by (rule group_for_snoc_other)
    qed
    have "grouped_by_key (prior @ [p]) = map (group_for (prior @ [p])) (?keys @ [?k])"
      unfolding grouped_by_key_def keys' ..
    also have "\<dots> = map (group_for (prior @ [p])) ?keys @ [group_for (prior @ [p]) ?k]"
      by simp
    also have "\<dots> = map (group_for prior) ?keys @ [(new_group p)\<lparr>items := [p]\<rparr>]"
      unfolding old group_for_snoc_new [OF new] ..
    finally have upd: "groups g @ [(new_group p)\<lparr>items := [p]\<rparr>] = grouped_by_key (prior @ [p])"
      by (simp add: gs grouped_by_key_def)
    have step: "group_step g p
        = Inr \<lparr>groups = groups g @ [(new_group p)\<lparr>items := [p]\<rparr>],
               indexByCategory = (indexByCategory g)(?k \<mapsto> length (groups g))\<rparr>"
      using look by (simp add: group_step_def push_item_def new_group_def)
    have ix': "((indexByCategory g)(?k \<mapsto> length (groups g))) k = Some i \<longleftrightarrow>
                 i < length (?keys @ [?k]) \<and> (?keys @ [?k]) ! i = k" for k i
    proof (cases "k = ?k")
      case True
      have "i < length ?keys \<Longrightarrow> ?keys ! i \<noteq> ?k"
        using False by (metis nth_mem)
      then have "i < Suc (length ?keys) \<and> (?keys @ [?k]) ! i = ?k \<longleftrightarrow> i = length ?keys"
        by (auto simp: nth_append less_Suc_eq)
      then show ?thesis
        using True by (auto simp: len)
    next
      case neq: False
      have "(?keys @ [?k]) ! i = k \<and> i < Suc (length ?keys) \<longleftrightarrow> i < length ?keys \<and> ?keys ! i = k"
        using neq by (auto simp: nth_append less_Suc_eq)
      then show ?thesis
        using neq ix [of k i] by auto
    qed
    show ?thesis
      using ix' by (simp add: step upd keys' del: map_append)
  qed
qed

lemma group_forEach_refines:
  assumes "groups g = grouped_by_key prior"
    and "\<And>k i. indexByCategory g k = Some i \<longleftrightarrow>
               i < length (first_occurrences (map product_mapKey prior)) \<and>
               first_occurrences (map product_mapKey prior) ! i = k"
  shows "\<exists>g'. group_forEach g products = Inr g' \<and> groups g' = grouped_by_key (prior @ products)"
  using assms
proof (induction products arbitrary: g prior)
  case Nil
  then show ?case by simp
next
  case (Cons p products)
  from group_step_refines [of g prior p] Cons.prems
  obtain g' where s: "group_step g p = Inr g'"
    and g': "groups g' = grouped_by_key (prior @ [p])"
    and ix': "\<And>k i. indexByCategory g' k = Some i \<longleftrightarrow>
               i < length (first_occurrences (map product_mapKey (prior @ [p]))) \<and>
               first_occurrences (map product_mapKey (prior @ [p])) ! i = k"
    by blast
  from Cons.IH [of g' "prior @ [p]"] g' ix'
  obtain g'' where "group_forEach g' products = Inr g''"
    and "groups g'' = grouped_by_key ((prior @ [p]) @ products)"
    by blast
  then show ?case
    using s by simp
qed

text \<open>
  The function never throws, and computes the groups of \<open>grouped_by_key\<close>: one group for
  each key, in the order in which the keys first occur, each holding the products of its
  key in the order of the input.
\<close>

lemma groupProductsByCategory_refines:
  "groupProductsByCategory products = Inr (grouped_by_key products)"
proof -
  have "\<exists>g'. group_forEach \<lparr>groups = [], indexByCategory = Map.empty\<rparr> products = Inr g' \<and>
          groups g' = grouped_by_key ([] @ products)"
    by (rule group_forEach_refines)
      (simp_all add: grouped_by_key_def first_occurrences_def)
  then show ?thesis
    by (auto simp: groupProductsByCategory_def)
qed

lemma mset_filter_insert_key:
  "k \<notin> K \<Longrightarrow>
   mset (filter (\<lambda>x. f x = k) xs) + mset (filter (\<lambda>x. f x \<in> K) xs)
     = mset (filter (\<lambda>x. f x \<in> insert k K) xs)"
  by (induction xs) auto

lemma mset_concat_filter_keys:
  "distinct ks \<Longrightarrow>
   mset (concat (map (\<lambda>k. filter (\<lambda>x. f x = k) xs) ks))
     = mset (filter (\<lambda>x. f x \<in> set ks) xs)"
proof (induction ks)
  case Nil
  then show ?case by simp
next
  case (Cons k ks)
  then show ?case
    using mset_filter_insert_key [of k "set ks" f xs] by simp
qed

lemma items_group_for: "items (group_for products k) = filter (\<lambda>p. product_mapKey p = k) products"
  by (simp add: group_for_def find_None_filter split: option.splits)

lemma items_grouped_by_key:
  "map items (grouped_by_key products)
     = map (\<lambda>k. filter (\<lambda>p. product_mapKey p = k) products)
         (first_occurrences (map product_mapKey products))"
  by (simp add: grouped_by_key_def items_group_for comp_def)

text \<open>Every product is in exactly one group, at exactly one position.\<close>

lemma grouped_by_key_partition: "mset (concat (map items (grouped_by_key products))) = mset products"
proof -
  have "mset (concat (map items (grouped_by_key products)))
      = mset (filter (\<lambda>p. product_mapKey p \<in> set (first_occurrences (map product_mapKey products)))
                products)"
    unfolding items_grouped_by_key
    by (rule mset_concat_filter_keys) (rule distinct_first_occurrences)
  also have "\<dots> = mset products"
    by (simp add: set_first_occurrences)
  finally show ?thesis .
qed

text \<open>
  A group of the result is not empty, holds the products of the key of its first member, in
  the order of the input, and takes its identifier and its name from its first member.
\<close>

lemma grouped_by_key_group:
  assumes "g \<in> set (grouped_by_key products)"
  shows "items g \<noteq> [] \<and>
         items g = filter (\<lambda>p. product_mapKey p = product_mapKey (hd (items g))) products \<and>
         categoryId g = cp_category (hd (items g)) \<and>
         categoryName g = (if cp_category_name (hd (items g)) \<noteq> []
                           then cp_category_name (hd (items g)) else Sin_categoria)"
proof -
  from assms obtain k where k: "k \<in> set (map product_mapKey products)"
    and g: "g = group_for products k"
    by (auto simp: grouped_by_key_def set_first_occurrences)
  then obtain q where q: "find (\<lambda>p. product_mapKey p = k) products = Some q"
    using find_key_None [of product_mapKey k products] by fastforce
  then obtain i where i: "i < length products" "product_mapKey (products ! i) = k"
    "q = products ! i" "\<forall>j<i. product_mapKey (products ! j) \<noteq> k"
    by (auto simp: find_Some_iff)
  have "filter (\<lambda>p. product_mapKey p = k) products
      = filter (\<lambda>p. product_mapKey p = k) (take i products)
        @ filter (\<lambda>p. product_mapKey p = k) (products ! i # drop (Suc i) products)"
    using i(1) by (metis append_take_drop_id Cons_nth_drop_Suc filter_append)
  moreover have "filter (\<lambda>p. product_mapKey p = k) (take i products) = []"
  proof -
    have "product_mapKey x \<noteq> k" if "x \<in> set (take i products)" for x
    proof -
      from that obtain j where "j < length (take i products)" and "x = take i products ! j"
        by (auto simp: in_set_conv_nth)
      then have "j < i" and "x = products ! j"
        by simp_all
      then show ?thesis using i(4) by blast
    qed
    then show ?thesis
      by (simp add: filter_empty_conv)
  qed
  ultimately have h: "hd (filter (\<lambda>p. product_mapKey p = k) products) = q"
    and ne: "filter (\<lambda>p. product_mapKey p = k) products \<noteq> []"
    using i(2,3) by simp_all
  have it: "items g = filter (\<lambda>p. product_mapKey p = k) products"
    by (simp add: g items_group_for)
  have kq: "product_mapKey q = k"
    using i by simp
  show ?thesis
    using h ne kq by (simp add: it) (simp add: g group_for_def q new_group_def)
qed

text \<open>
  When no product has the category \<open>- 1\<close>, the key \<^verbatim>\<open>uncategorized\<close> is the key of the
  products without category alone, so the group of a product without category has the
  identifier \<^verbatim>\<open>null\<close>, and holds no product with a category.
\<close>

lemma grouped_by_key_null_group:
  assumes "\<forall>p\<in>set products. cp_category p \<noteq> Some (- 1)"
    and "g \<in> set (grouped_by_key products)" and "p \<in> set (items g)"
  shows "categoryId g = None \<longleftrightarrow> cp_category p = None"
proof -
  have key: "product_mapKey a = product_mapKey b \<longleftrightarrow> cp_category a = cp_category b"
    if "a \<in> set products" "b \<in> set products" for a b
    using that assms(1)
    by (auto simp: product_mapKey_def product_key_def split: option.splits)
  from grouped_by_key_group [OF assms(2)]
  have it: "items g = filter (\<lambda>p. product_mapKey p = product_mapKey (hd (items g))) products"
    and ne: "items g \<noteq> []" and ci: "categoryId g = cp_category (hd (items g))"
    by simp_all
  have "hd (items g) \<in> set (items g)"
    using ne by simp
  then have hm: "hd (items g) \<in> set products"
    using it by (metis filter_is_subset subsetD)
  have pm: "p \<in> set products" and pk: "product_mapKey p = product_mapKey (hd (items g))"
    using assms(3) it by (metis filter_is_subset subsetD, metis (mono_tags, lifting) mem_Collect_eq set_filter)
  show ?thesis
    using key [OF pm hm] pk ci by simp
qed

text \<open>
  So, for every input: the function returns, every product is in exactly one group at
  exactly one position, the groups come in the order in which their keys first occur, and
  the products of a group keep the order of the input.
\<close>

lemma groupProductsByCategory_partition:
  "\<exists>gs. groupProductsByCategory products = Inr gs \<and>
        mset (concat (map items gs)) = mset products \<and>
        map items gs
          = map (\<lambda>k. filter (\<lambda>p. product_mapKey p = k) products)
              (first_occurrences (map product_mapKey products))"
  by (intro exI [of _ "grouped_by_key products"] conjI groupProductsByCategory_refines
      grouped_by_key_partition items_grouped_by_key)

text \<open>
  C4, where the code departs from it. A product whose category is \<open>- 1\<close> gets the key of the
  products without category: the first of the two products below has the category \<open>- 1\<close>,
  the second has none, and both end in one group, whose identifier is \<open>- 1\<close> and not
  \<^verbatim>\<open>null\<close>.
\<close>

theorem groupProductsByCategory_sentinel_collision:
  "groupProductsByCategory
     [sample_catalog_product 1 (Some (- 1)) ''Granos'', sample_catalog_product 2 None []]
   = Inr [\<lparr>categoryId = Some (- 1), categoryName = ''Granos'',
           items = [sample_catalog_product 1 (Some (- 1)) ''Granos'',
                    sample_catalog_product 2 None []]\<rparr>]"
  by (simp add: groupProductsByCategory_def group_step_def push_item_def product_mapKey_def
      product_key_def new_group_def sample_catalog_product_def)

end
